theory Spec2Isabelle
  imports
    Main
    "HOL-Library.Sublist"
    "HOL-Library.Multiset"
    "HOL-Library.Char_ord"
    "HOL-Library.List_Lexorder"
    "HOL-Library.Product_Lexorder"
begin

section \<open>Python values used by the slit lamp camera service\<close>

text \<open>
  A text is the list of its characters, a character outside ASCII being held as the bytes
  of its UTF-8 encoding: texts then compare as Python compares them (character by
  character, a proper prefix being smaller), and \<open>startswith\<close> is the test for a prefix.
  \<open>upper\<close> and \<open>lower\<close> are \<open>str.upper\<close> and \<open>str.lower\<close> on ASCII text: they
  change the 26 letters and leave every other character alone. The resolver lower-cases a
  text only to compare the result with one of the words usb, mmc and true; Python
  lower-cases no character outside ASCII to a letter of these words, so \<open>lower\<close> decides
  these comparisons as \<open>str.lower\<close> does on every text. The upper-case form of a volume
  label, which may hold any characters, is not computed here: the resolver takes it from
  its environment (\<open>str_upper\<close>).
\<close>

definition upper_char :: "char \<Rightarrow> char" where
  "upper_char c =
     (case map_of (zip ''abcdefghijklmnopqrstuvwxyz'' ''ABCDEFGHIJKLMNOPQRSTUVWXYZ'') c of
        Some u \<Rightarrow> u | None \<Rightarrow> c)"

definition lower_char :: "char \<Rightarrow> char" where
  "lower_char c =
     (case map_of (zip ''ABCDEFGHIJKLMNOPQRSTUVWXYZ'' ''abcdefghijklmnopqrstuvwxyz'') c of
        Some l \<Rightarrow> l | None \<Rightarrow> c)"

definition upper :: "string \<Rightarrow> string" where
  "upper s = map upper_char s"

definition lower :: "string \<Rightarrow> string" where
  "lower s = map lower_char s"

text \<open>\<open>str(n)\<close> for a natural number, and for an integer.\<close>

definition digit_char :: "nat \<Rightarrow> char" where
  "digit_char d = ''0123456789'' ! (d mod 10)"

fun str_nat :: "nat \<Rightarrow> string" where
  "str_nat n = (if n < 10 then [digit_char n] else str_nat (n div 10) @ [digit_char (n mod 10)])"

declare str_nat.simps [simp del]

definition str_int :: "int \<Rightarrow> string" where
  "str_int i = (if i < 0 then CHR ''-'' # str_nat (nat (- i)) else str_nat (nat i))"

text \<open>
  \<open>repr\<close> of a text and of a list of texts. A text is shown in single quotes, or in
  double quotes when it holds a single quote and no double quote; the backslash, the
  enclosing quote and the control characters are escaped. (Python also escapes the
  characters outside ASCII that are not printable; they are shown as they are here.)
\<close>

definition hex_digit :: "nat \<Rightarrow> char" where
  "hex_digit d = ''0123456789abcdef'' ! (d mod 16)"

definition repr_char :: "char \<Rightarrow> char \<Rightarrow> string" where
  "repr_char qt c =
     (if c = CHR 0x5C \<or> c = qt then [CHR 0x5C, c]
      else if c = CHR 0x09 then [CHR 0x5C, CHR ''t'']
      else if c = CHR 0x0A then [CHR 0x5C, CHR ''n'']
      else if c = CHR 0x0D then [CHR 0x5C, CHR ''r'']
      else if (of_char c :: nat) < 32 \<or> c = CHR 0x7F
      then [CHR 0x5C, CHR ''x'', hex_digit (of_char c div 16), hex_digit (of_char c)]
      else [c])"

definition repr_str :: "string \<Rightarrow> string" where
  "repr_str s =
     (let qt = (if CHR 0x27 \<in> set s \<and> CHR 0x22 \<notin> set s then CHR 0x22 else CHR 0x27)
      in [qt] @ concat (map (repr_char qt) s) @ [qt])"

definition repr_list :: "string list \<Rightarrow> string" where
  "repr_list xs =
     ''['' @ (case xs of
                [] \<Rightarrow> []
              | y # ys \<Rightarrow> repr_str y @ concat (map (\<lambda>x. '', '' @ repr_str x) ys)) @ '']''"

text \<open>
  The members of \<open>signal.Signals\<close> (Linux, Python 3.11), by number; \<open>repr\<close> of a member
  shows \<open>Signals.NAME: number\<close> between angle brackets.
\<close>

definition signal_table :: "(nat \<times> string) list" where
  "signal_table =
     [(1, ''SIGHUP''), (2, ''SIGINT''), (3, ''SIGQUIT''), (4, ''SIGILL''), (5, ''SIGTRAP''),
      (6, ''SIGABRT''), (7, ''SIGBUS''), (8, ''SIGFPE''), (9, ''SIGKILL''), (10, ''SIGUSR1''),
      (11, ''SIGSEGV''), (12, ''SIGUSR2''), (13, ''SIGPIPE''), (14, ''SIGALRM''),
      (15, ''SIGTERM''), (16, ''SIGSTKFLT''), (17, ''SIGCHLD''), (18, ''SIGCONT''),
      (19, ''SIGSTOP''), (20, ''SIGTSTP''), (21, ''SIGTTIN''), (22, ''SIGTTOU''),
      (23, ''SIGURG''), (24, ''SIGXCPU''), (25, ''SIGXFSZ''), (26, ''SIGVTALRM''),
      (27, ''SIGPROF''), (28, ''SIGWINCH''), (29, ''SIGIO''), (30, ''SIGPWR''),
      (31, ''SIGSYS''), (34, ''SIGRTMIN''), (64, ''SIGRTMAX'')]"

definition died_with :: "nat \<Rightarrow> string" where
  "died_with n =
     (case map_of signal_table n of
        Some name \<Rightarrow> ''<Signals.'' @ name @ '': '' @ str_nat n @ ''>''
      | None \<Rightarrow> ''unknown signal '' @ str_nat n)"

text \<open>
  Exceptions are values; \<open>str(exc)\<close> is the message they carry. A CalledProcessError
  carries the argument list of the command and its return code, which is negative when
  the command was ended by a signal.
\<close>

datatype exn =
    FileNotFoundError string
  | CalledProcessError "string list" int
  | JSONDecodeError
  | RuntimeError string
  | OSError string
  | ValueError string
  | TimeoutExpired

fun str_exn :: "exn \<Rightarrow> string" where
  "str_exn (FileNotFoundError m) = m"
| "str_exn (CalledProcessError cmd rc) =
     ''Command '' @ [CHR 0x27] @ repr_list cmd @ [CHR 0x27] @
     (if rc < 0 then '' died with '' @ died_with (nat (- rc)) @ ''.''
      else '' returned non-zero exit status '' @ str_int rc @ ''.'')"
| "str_exn JSONDecodeError = ''Expecting value''"
| "str_exn (RuntimeError m) = m"
| "str_exn (OSError m) = m"
| "str_exn (ValueError m) = m"
| "str_exn TimeoutExpired = ''timed out''"

section \<open>pathlib paths (POSIX flavour)\<close>

text \<open>
  A \<open>Path\<close> is kept as pathlib keeps it: the root (\<open>''''\<close>, \<open>''/''\<close> or \<open>''//''\<close>)
  and the list of its components, with empty and \<open>.\<close> components dropped at parsing.
  Two paths are equal when root and components are.
\<close>

datatype Path = Path (root: string) (parts: "string list")

fun split_on :: "char \<Rightarrow> string \<Rightarrow> string list" where
  "split_on c [] = [[]]"
| "split_on c (x # xs) =
     (if x = c then [] # split_on c xs
      else (case split_on c xs of
              [] \<Rightarrow> [[x]]
            | w # ws \<Rightarrow> (x # w) # ws))"

definition path_components :: "string \<Rightarrow> string list" where
  "path_components s = filter (\<lambda>c. c \<noteq> [] \<and> c \<noteq> ''.'') (split_on CHR ''/'' s)"

definition parse_path :: "string \<Rightarrow> Path" where
  "parse_path s =
     (if \<not> prefix ''/'' s then Path [] (path_components s)
      else if \<not> prefix ''//'' s \<or> prefix ''///'' s then Path ''/'' (path_components s)
      else Path ''//'' (path_components s))"

fun join_with :: "string \<Rightarrow> string list \<Rightarrow> string" where
  "join_with sep [] = []"
| "join_with sep [x] = x"
| "join_with sep (x # y # ys) = x @ sep @ join_with sep (y # ys)"

definition str_path :: "Path \<Rightarrow> string" where
  "str_path p =
     (if root p = [] \<and> parts p = [] then ''.'' else root p @ join_with ''/'' (parts p))"

text \<open>\<open>p / s\<close>: an absolute \<open>s\<close> replaces \<open>p\<close>, a relative one is appended.\<close>

definition joinpath :: "Path \<Rightarrow> string \<Rightarrow> Path" where
  "joinpath p s =
     (if prefix ''/'' s then parse_path s else Path (root p) (parts p @ path_components s))"

text \<open>
  \<open>name\<close>, \<open>suffix\<close> and \<open>with_suffix\<close>. The suffix of a name starts at its last dot,
  when that dot is neither the first nor the last character. \<open>with_suffix\<close> raises
  ValueError on a path with an empty name and on a malformed suffix.
\<close>

definition path_name :: "Path \<Rightarrow> string" where
  "path_name p = (if parts p = [] then [] else last (parts p))"

definition name_suffix :: "string \<Rightarrow> string" where
  "name_suffix n =
     (let ext = rev (takeWhile (\<lambda>c. c \<noteq> CHR ''.'') (rev n))
      in if CHR ''.'' \<in> set n \<and> ext \<noteq> [] \<and> Suc (length ext) < length n
         then CHR ''.'' # ext else [])"

definition with_suffix :: "Path \<Rightarrow> string \<Rightarrow> exn + Path" where
  "with_suffix p sfx =
     (let n = path_name p in
      if CHR ''/'' \<in> set sfx \<or> (sfx \<noteq> [] \<and> \<not> prefix ''.'' sfx) \<or> sfx = ''.''
      then Inl (ValueError ''Invalid suffix'')
      else if n = [] then Inl (ValueError ''has an empty name'')
      else Inr (Path (root p)
                 (butlast (parts p) @ [take (length n - length (name_suffix n)) n @ sfx])))"

section \<open>storage.py: the removable-storage target resolver\<close>

record UsbTarget =
  mountpoint :: Path
  device :: "string option"
  fstype :: "string option"
  label :: "string option"

text \<open>
  One entry of the \<open>lsblk -J\<close> listing. A text column is a JSON string or null
  (\<open>None\<close>); the \<open>rm\<close> and \<open>hotplug\<close> columns are booleans in current releases of
  lsblk, strings or numbers in older ones. \<open>node_children\<close> is the list under the key
  \<open>children\<close>, empty when the key is absent or null.
\<close>

datatype jval = JNull | JBool bool | JInt int | JStr string

record node_fields =
  node_name :: "string option"
  node_kname :: "string option"
  node_path :: "string option"
  node_tran :: "string option"
  node_rm :: jval
  node_hotplug :: jval
  node_mountpoint :: "string option"
  node_fstype :: "string option"
  node_label :: "string option"
  node_size :: "string option"

datatype DeviceNode = DeviceNode (nfields: node_fields) (node_children: "DeviceNode list")

text \<open>The environment of the resolver: what the operating system answers.\<close>

record storage_env =
  storage_dir_override :: "string option"  \<comment> \<open>\<open>os.environ.get("SLITCAM_STORAGE_DIR")\<close>\<close>
  expanduser :: "Path \<Rightarrow> Path"
  lsblk_found :: bool  \<comment> \<open>the \<open>lsblk\<close> executable exists\<close>
  lsblk_returncode :: int
  lsblk_stdout :: "DeviceNode list option option"
    \<comment> \<open>\<open>json.loads\<close> of the output: \<open>None\<close> when it is not JSON, else the value
        under \<open>blockdevices\<close> (\<open>None\<close> when absent or null)\<close>
  writable_dir :: "Path \<Rightarrow> bool"  \<comment> \<open>the outcome of the probe \<open>_is_writable_dir\<close>\<close>
  str_upper :: "string \<Rightarrow> string"
    \<comment> \<open>\<open>str.upper\<close>, the upper-case mapping of Python (a table of the Unicode
        database); on ASCII text it is \<open>upper\<close>\<close>

definition lsblk_cmd :: "string list" where
  "lsblk_cmd = [''lsblk'', ''-J'', ''-o'', ''NAME,KNAME,PATH,TRAN,RM,HOTPLUG,MOUNTPOINT,FSTYPE,LABEL,SIZE'']"

definition run_lsblk_json :: "storage_env \<Rightarrow> exn + DeviceNode list option" where
  "run_lsblk_json env =
     (if \<not> lsblk_found env then Inl (FileNotFoundError ''lsblk'')
      else if lsblk_returncode env \<noteq> 0 then Inl (CalledProcessError lsblk_cmd (lsblk_returncode env))
      else (case lsblk_stdout env of
              None \<Rightarrow> Inl JSONDecodeError
            | Some tree \<Rightarrow> Inr tree))"

fun walk :: "DeviceNode \<Rightarrow> DeviceNode list" where
  "walk (DeviceNode f cs) = DeviceNode f cs # concat (map walk cs)"

definition flatten_lsblk :: "DeviceNode list option \<Rightarrow> DeviceNode list" where
  "flatten_lsblk tree = concat (map walk (case tree of None \<Rightarrow> [] | Some devs \<Rightarrow> devs))"

text \<open>
  \<open>rm is True or rm == 1 or str(rm).lower() == "true"\<close>, on a JSON value.
\<close>

fun py_str :: "jval \<Rightarrow> string" where
  "py_str JNull = ''None''"
| "py_str (JBool b) = (if b then ''True'' else ''False'')"
| "py_str (JInt i) = str_int i"
| "py_str (JStr s) = s"

fun eq_one :: "jval \<Rightarrow> bool" where
  "eq_one (JBool b) = b"
| "eq_one (JInt i) = (i = 1)"
| "eq_one _ = False"

definition is_removable :: "jval \<Rightarrow> bool" where
  "is_removable rm = (rm = JBool True \<or> eq_one rm \<or> lower (py_str rm) = ''true'')"

definition or_empty :: "string option \<Rightarrow> string" where
  "or_empty v = (case v of None \<Rightarrow> [] | Some s \<Rightarrow> s)"

definition or_else :: "string option \<Rightarrow> string option \<Rightarrow> string option" where
  "or_else a b = (case a of None \<Rightarrow> b | Some s \<Rightarrow> if s = [] then b else a)"

text \<open>The body of the loop over the flattened nodes: the candidate a node contributes.\<close>

definition candidate :: "storage_env \<Rightarrow> string \<Rightarrow> DeviceNode \<Rightarrow> UsbTarget option" where
  "candidate env recordings_dir_name n =
     (case node_mountpoint (nfields n) of
        None \<Rightarrow> None
      | Some mnt \<Rightarrow>
          if mnt = [] then None
          else
            let tran = lower (or_empty (node_tran (nfields n)));
                is_usbish = (tran = ''usb'' \<or> (is_removable (node_rm (nfields n)) \<and> tran \<noteq> ''mmc''))
            in if \<not> is_usbish then None
               else
                 let mp = parse_path mnt in
                 if mp = parse_path ''/'' then None
                 else if prefix ''/boot'' (str_path mp) then None
                 else
                   let target = joinpath mp recordings_dir_name in
                   if writable_dir env target
                   then Some \<lparr> mountpoint = target,
                               device = or_else (node_path (nfields n)) (node_kname (nfields n)),
                               fstype = node_fstype (nfields n),
                               label = node_label (nfields n) \<rparr>
                   else None)"

definition collect_candidates :: "storage_env \<Rightarrow> string \<Rightarrow> DeviceNode list \<Rightarrow> UsbTarget list" where
  "collect_candidates env recordings_dir_name nodes =
     List.map_filter (candidate env recordings_dir_name) nodes"

definition score :: "storage_env \<Rightarrow> string list \<Rightarrow> UsbTarget \<Rightarrow> nat \<times> string \<times> string" where
  "score env prefer_label_prefixes t =
     (let lbl = str_upper env (or_empty (label t));
          preferred = (if list_ex (\<lambda>p. prefix p lbl) prefer_label_prefixes then 1 else 0)
      in (preferred, lbl, str_path (mountpoint t)))"

text \<open>
  \<open>list.sort(key=..., reverse=True)\<close>: the list is reversed, sorted by the stable
  ascending sort, and reversed again, so that elements with equal keys keep their order.
\<close>

definition sort_reverse :: "('a \<Rightarrow> 'k::linorder) \<Rightarrow> 'a list \<Rightarrow> 'a list" where
  "sort_reverse key xs = rev (sort_key key (rev xs))"

definition override_set :: "storage_env \<Rightarrow> bool" where
  "override_set env = (case storage_dir_override env of None \<Rightarrow> False | Some s \<Rightarrow> s \<noteq> [])"

definition find_usb_mount_targets :: "storage_env \<Rightarrow> string \<Rightarrow> string list \<Rightarrow> UsbTarget list" where
  "find_usb_mount_targets env recordings_dir_name prefer_label_prefixes =
     (if override_set env
      then [\<lparr> mountpoint =
                 joinpath (expanduser env (parse_path (or_empty (storage_dir_override env))))
                   recordings_dir_name,
               device = None, fstype = None, label = None \<rparr>]
      else (case run_lsblk_json env of
              Inl exc \<Rightarrow> []
            | Inr tree \<Rightarrow>
                sort_reverse (score env prefer_label_prefixes)
                  (collect_candidates env recordings_dir_name (flatten_lsblk tree))))"

definition default_recordings_dir_name :: string where
  "default_recordings_dir_name = ''slitlamp-recordings''"

definition default_prefer_label_prefixes :: "string list" where
  "default_prefer_label_prefixes = [''SLITLAMP'', ''SLITLAMP_'']"

definition choose_usb_target :: "storage_env \<Rightarrow> UsbTarget option" where
  "choose_usb_target env =
     (case find_usb_mount_targets env default_recordings_dir_name default_prefer_label_prefixes of
        [] \<Rightarrow> None
      | t # ts \<Rightarrow> Some t)"

text \<open>
  The mount points the resolver must never offer: the filesystem root and everything
  whose mount point text begins with \<open>/boot\<close>.
\<close>

definition system_mount :: "DeviceNode \<Rightarrow> bool" where
  "system_mount n =
     (case node_mountpoint (nfields n) of
        None \<Rightarrow> False
      | Some m \<Rightarrow> m = ''/'' \<or> prefix ''/boot'' m)"

text \<open>
  The order of the targets, in the words of the specification. The label text of a
  target is its label, empty for a partition without one; the preferred-label flag is 1
  when the label in upper case starts with one of the configured prefixes (which are
  taken as they are configured), else 0.
\<close>

definition label_text :: "UsbTarget \<Rightarrow> string" where
  "label_text t = (case label t of None \<Rightarrow> [] | Some l \<Rightarrow> l)"

definition folded_label :: "storage_env \<Rightarrow> UsbTarget \<Rightarrow> string" where
  "folded_label env t = str_upper env (label_text t)"

definition preferred_label_flag :: "storage_env \<Rightarrow> string list \<Rightarrow> UsbTarget \<Rightarrow> nat" where
  "preferred_label_flag env ps t =
     (if \<exists>p \<in> set ps. prefix p (folded_label env t) then 1 else 0)"

text \<open>
  The key as the specification gives it, with the label text itself in second place, and
  the order it describes: \<open>a\<close> may stand before \<open>b\<close> when the key of \<open>a\<close> is not
  smaller than the key of \<open>b\<close>.
\<close>

definition claimed_key :: "storage_env \<Rightarrow> string list \<Rightarrow> UsbTarget \<Rightarrow> nat \<times> string \<times> string" where
  "claimed_key env ps t =
     (preferred_label_flag env ps t, label_text t, str_path (mountpoint t))"

definition claimed_order :: "storage_env \<Rightarrow> string list \<Rightarrow> UsbTarget \<Rightarrow> UsbTarget \<Rightarrow> bool" where
  "claimed_order env ps a b = (claimed_key env ps b \<le> claimed_key env ps a)"

text \<open>
  The same key with the label in upper case in second place, and its order written out:
  \<open>a\<close> may stand before \<open>b\<close> when \<open>a\<close> has the larger flag; or the flags are equal
  and \<open>a\<close> has the larger upper-case label; or these are equal too and the mount point
  text of \<open>a\<close> is not smaller than that of \<open>b\<close>.
\<close>

definition folded_key :: "storage_env \<Rightarrow> string list \<Rightarrow> UsbTarget \<Rightarrow> nat \<times> string \<times> string" where
  "folded_key env ps t =
     (preferred_label_flag env ps t, folded_label env t, str_path (mountpoint t))"

definition not_ranked_below :: "storage_env \<Rightarrow> string list \<Rightarrow> UsbTarget \<Rightarrow> UsbTarget \<Rightarrow> bool" where
  "not_ranked_below env ps a b =
     (preferred_label_flag env ps b < preferred_label_flag env ps a
      \<or> (preferred_label_flag env ps a = preferred_label_flag env ps b
          \<and> (folded_label env b < folded_label env a
              \<or> (folded_label env a = folded_label env b
                  \<and> str_path (mountpoint b) \<le> str_path (mountpoint a)))))"

section \<open>The operating system as the service sees it\<close>

text \<open>
  Time is counted in milliseconds. A child process is described by when it exits: the
  moment already fixed (\<open>exit_time\<close>, \<open>None\<close> while it would run on), and how long it
  takes to exit once it receives an interrupt or a terminate signal (\<open>None\<close>: it ignores
  the signal). A kill signal cannot be ignored. A \<open>Popen\<close> handle is the index of its
  process in \<open>procs\<close>; \<open>calls\<close> lists, with their times, the calls made to the
  operating system.
\<close>

datatype signal = SIGINT | SIGTERM | SIGKILL

record proc =
  exit_time :: "nat option"
  int_delay :: "nat option"
  term_delay :: "nat option"
  kill_delay :: nat

datatype call =
    Mkdir Path
  | Popen "string list"
  | SendSignal nat signal
  | Wait nat "nat option"
  | RunCmd "string list"
  | Unlink Path

record world =
  now :: nat
  procs :: "proc list"
  calls :: "(nat \<times> call) list"

definition log_call :: "call \<Rightarrow> world \<Rightarrow> world" where
  "log_call c w = w \<lparr> calls := calls w @ [(now w, c)] \<rparr>"

definition exited :: "nat \<Rightarrow> proc \<Rightarrow> bool" where
  "exited t p = (case exit_time p of None \<Rightarrow> False | Some e \<Rightarrow> e \<le> t)"

text \<open>\<open>proc.poll() is not None\<close>: the process of the handle has exited.\<close>

definition poll_exited :: "world \<Rightarrow> nat \<Rightarrow> bool" where
  "poll_exited w h = exited (now w) (procs w ! h)"

fun signal_delay :: "proc \<Rightarrow> signal \<Rightarrow> nat option" where
  "signal_delay p SIGINT = int_delay p"
| "signal_delay p SIGTERM = term_delay p"
| "signal_delay p SIGKILL = Some (kill_delay p)"

definition deliver :: "signal \<Rightarrow> nat \<Rightarrow> proc \<Rightarrow> proc" where
  "deliver sig t p =
     (case signal_delay p sig of
        None \<Rightarrow> p
      | Some d \<Rightarrow>
          p \<lparr> exit_time := Some (case exit_time p of None \<Rightarrow> t + d | Some e \<Rightarrow> min e (t + d)) \<rparr>)"

text \<open>
  \<open>Popen.send_signal\<close> polls first and sends nothing to a process that has exited;
  \<open>terminate\<close> and \<open>kill\<close> are \<open>send_signal\<close> with SIGTERM and SIGKILL. None of them
  raises on a child of the calling process.
\<close>

definition send_signal :: "world \<Rightarrow> nat \<Rightarrow> signal \<Rightarrow> world" where
  "send_signal w h sig =
     (if poll_exited w h then w
      else log_call (SendSignal h sig) (w \<lparr> procs := (procs w) [h := deliver sig (now w) (procs w ! h)] \<rparr>))"

text \<open>
  \<open>proc.wait(timeout=t)\<close> returns when the process exits within \<open>t\<close>, and raises
  TimeoutExpired after \<open>t\<close> otherwise. \<open>proc.wait()\<close> returns when the process exits
  and does not return (\<open>None\<close>) when it never does.
\<close>

definition wait_timeout :: "world \<Rightarrow> nat \<Rightarrow> nat \<Rightarrow> exn option \<times> world" where
  "wait_timeout w h timeout =
     (let w1 = log_call (Wait h (Some timeout)) w in
      case exit_time (procs w ! h) of
        None \<Rightarrow> (Some TimeoutExpired, w1 \<lparr> now := now w + timeout \<rparr>)
      | Some e \<Rightarrow>
          if e \<le> now w + timeout then (None, w1 \<lparr> now := max (now w) e \<rparr>)
          else (Some TimeoutExpired, w1 \<lparr> now := now w + timeout \<rparr>))"

definition wait_forever :: "world \<Rightarrow> nat \<Rightarrow> world option" where
  "wait_forever w h =
     (case exit_time (procs w ! h) of
        None \<Rightarrow> None
      | Some e \<Rightarrow> Some ((log_call (Wait h None) w) \<lparr> now := max (now w) e \<rparr>))"

section \<open>camera.py: the capture process controller\<close>

definition DEFAULT_FPS :: nat where
  "DEFAULT_FPS = 25"

text \<open>What the operating system answers to one call of the controller.\<close>

record camera_env =
  have_rpicam_vid :: bool
  have_libcamera_vid :: bool
  camera_args_var :: "string option"  \<comment> \<open>\<open>SLITCAM_CAMERA_ARGS\<close>\<close>
  shlex_split :: "string \<Rightarrow> exn + string list"
  mkdir_error :: "exn option"  \<comment> \<open>raised by \<open>output_path.parent.mkdir\<close>, if any\<close>
  popen_result :: "exn + proc"  \<comment> \<open>\<open>subprocess.Popen\<close>: the error raised or the child started\<close>
  have_ffmpeg :: bool
  ffmpeg_returncode :: int
  mp4_exists :: bool

definition get_camera_command :: "camera_env \<Rightarrow> exn + string" where
  "get_camera_command env =
     (if have_rpicam_vid env then Inr ''rpicam-vid''
      else if have_libcamera_vid env then Inr ''libcamera-vid''
      else Inl (RuntimeError
        ''No camera tool found. Install rpicam-apps or libcamera-apps via apt on the Pi.''))"

definition is_space :: "char \<Rightarrow> bool" where
  "is_space c =
     (c \<in> set [CHR '' '', CHR 0x09, CHR 0x0A, CHR 0x0B, CHR 0x0C, CHR 0x0D,
                CHR 0x1C, CHR 0x1D, CHR 0x1E, CHR 0x1F])"

definition strip :: "string \<Rightarrow> string" where
  "strip s = rev (dropWhile is_space (rev (dropWhile is_space s)))"

definition get_extra_camera_args :: "camera_env \<Rightarrow> exn + string list" where
  "get_extra_camera_args env =
     (let raw = strip (or_empty (camera_args_var env)) in
      if raw = [] then Inr [] else shlex_split env raw)"

definition parent :: "Path \<Rightarrow> Path" where
  "parent p = Path (root p) (butlast (parts p))"

definition start_recording :: "camera_env \<Rightarrow> world \<Rightarrow> Path \<Rightarrow> nat \<Rightarrow> (exn + nat) \<times> world" where
  "start_recording env w output_path framerate =
     (let w1 = log_call (Mkdir (parent output_path)) w in
      case mkdir_error env of
        Some exc \<Rightarrow> (Inl exc, w1)
      | None \<Rightarrow>
          (case get_camera_command env of
             Inl exc \<Rightarrow> (Inl exc, w1)
           | Inr cmd \<Rightarrow>
               (case get_extra_camera_args env of
                  Inl exc \<Rightarrow> (Inl exc, w1)
                | Inr extra \<Rightarrow>
                    let args = [cmd, ''-t'', ''0'', ''--codec'', ''h264'',
                                ''--framerate'', str_nat framerate, ''--inline'', ''--nopreview'',
                                ''-o'', str_path output_path] @ extra;
                        w2 = log_call (Popen args) w1
                    in (case popen_result env of
                          Inl exc \<Rightarrow> (Inl exc, w2)
                        | Inr child \<Rightarrow>
                            (Inr (length (procs w2)), w2 \<lparr> procs := procs w2 @ [child] \<rparr>)))))"

text \<open>
  \<open>stop_recording\<close>: nothing for no handle or an exited process; else interrupt and
  wait, on a timeout terminate and wait, on a second timeout kill and wait without limit.
  The result is \<open>None\<close> when the call does not return.
\<close>

definition stop_recording :: "world \<Rightarrow> nat option \<Rightarrow> nat \<Rightarrow> world option" where
  "stop_recording w proc_handle timeout =
     (case proc_handle of
        None \<Rightarrow> Some w
      | Some h \<Rightarrow>
          if poll_exited w h then Some w
          else
            let w1 = send_signal w h SIGINT in
            (case wait_timeout w1 h timeout of
               (None, w2) \<Rightarrow> Some w2
             | (Some exc, w2) \<Rightarrow>
                 let w3 = send_signal w2 h SIGTERM in
                 (case wait_timeout w3 h timeout of
                    (None, w4) \<Rightarrow> Some w4
                  | (Some exc, w4) \<Rightarrow>
                      let w5 = send_signal w4 h SIGKILL in
                      wait_forever w5 h)))"

definition default_stop_timeout :: nat where
  "default_stop_timeout = 5000"

definition convert_to_mp4 :: "camera_env \<Rightarrow> world \<Rightarrow> Path \<Rightarrow> bool \<Rightarrow> (exn + Path) \<times> world" where
  "convert_to_mp4 env w h264_path delete_h264 =
     (if \<not> have_ffmpeg env
      then (Inl (RuntimeError ''ffmpeg not found. Install via: sudo apt install ffmpeg''), w)
      else
        (case with_suffix h264_path ''.mp4'' of
           Inl exc \<Rightarrow> (Inl exc, w)
         | Inr mp4_path \<Rightarrow>
             let cmd = [''ffmpeg'', ''-y'', ''-fflags'', ''+genpts'',
                        ''-r'', str_nat DEFAULT_FPS, ''-i'', str_path h264_path,
                        ''-c'', ''copy'', str_path mp4_path];
                 w1 = log_call (RunCmd cmd) w
             in if ffmpeg_returncode env \<noteq> 0
                then (Inl (CalledProcessError cmd (ffmpeg_returncode env)), w1)
                else
                  let w2 = log_call (RunCmd [''sync'']) w1;
                      w3 = (if delete_h264 \<and> mp4_exists env then log_call (Unlink h264_path) w2 else w2)
                  in (Inr mp4_path, w3)))"

definition camera_sanity_check :: "camera_env \<Rightarrow> exn + string" where
  "camera_sanity_check env =
     (case get_camera_command env of
        Inr cmd \<Rightarrow> Inr cmd
      | Inl exc \<Rightarrow>
          Inl (RuntimeError (''No camera tool found (rpicam-vid or libcamera-vid). '' @
                             ''On Raspberry Pi OS, install: sudo apt install rpicam-apps'')))"

section \<open>Outcomes of calls that may raise or not return\<close>

text \<open>
  A call returns a value and the new state (\<open>Ok\<close>), raises an exception in some state
  (\<open>Raise\<close>), or does not return (\<open>NoReturn\<close>).
\<close>

datatype ('a, 's) res = Ok 'a 's | Raise exn 's | NoReturn

section \<open>gpio\_io.py: the latching button\<close>

definition DEFAULT_BUTTON_PIN :: nat where
  "DEFAULT_BUTTON_PIN = 17"

text \<open>
  \<open>hw_button\<close> tells whether \<open>self._button\<close> holds a gpiozero button. The two
  callbacks are passed to the methods that call them; they act on the state \<open>'s\<close> of
  their owner.
\<close>

record button =
  gpio_pin :: nat
  pull_up :: bool
  fake_mode :: bool
  hw_button :: bool
  last_state :: "bool option"

type_synonym 's callback = "('s \<Rightarrow> (unit, 's) res) option"

definition new_button :: "bool \<Rightarrow> exn option \<Rightarrow> nat \<Rightarrow> bool \<Rightarrow> exn + button" where
  "new_button fake_gpio gpiozero_error pin pull =
     (if fake_gpio
      then Inr \<lparr> gpio_pin = pin, pull_up = pull, fake_mode = True, hw_button = False,
                 last_state = None \<rparr>
      else (case gpiozero_error of
              Some exc \<Rightarrow>
                Inl (RuntimeError
                  ''gpiozero not available. Install on the Pi with: sudo apt install python3-gpiozero'')
            | None \<Rightarrow>
                Inr \<lparr> gpio_pin = pin, pull_up = pull, fake_mode = False, hw_button = True,
                      last_state = None \<rparr>))"

text \<open>\<open>is_pressed\<close>; \<open>line\<close> is what the input line reads at that moment.\<close>

definition is_pressed :: "button \<Rightarrow> bool \<Rightarrow> bool" where
  "is_pressed b line = (if fake_mode b then False else if hw_button b then line else False)"

definition with_button :: "button \<Rightarrow> (unit, 's) res \<Rightarrow> (unit, button \<times> 's) res" where
  "with_button b r =
     (case r of
        Ok u s \<Rightarrow> Ok () (b, s)
      | Raise exc s \<Rightarrow> Raise exc (b, s)
      | NoReturn \<Rightarrow> NoReturn)"

definition poll :: "'s callback \<Rightarrow> 's callback \<Rightarrow> bool \<Rightarrow> button \<times> 's \<Rightarrow> (unit, button \<times> 's) res" where
  "poll on_pressed on_released line bs =
     (let b = fst bs; s = snd bs; current_state = is_pressed b line in
      case last_state b of
        None \<Rightarrow> Ok () (b \<lparr> last_state := Some current_state \<rparr>, s)
      | Some previous \<Rightarrow>
          if current_state \<noteq> previous
          then
            let b1 = b \<lparr> last_state := Some current_state \<rparr> in
            (case (current_state, on_pressed, on_released) of
               (True, Some pressed, _) \<Rightarrow> with_button b1 (pressed s)
             | (True, None, _) \<Rightarrow> Ok () (b1, s)
             | (False, _, Some released) \<Rightarrow> with_button b1 (released s)
             | (False, _, None) \<Rightarrow> Ok () (b1, s))
          else Ok () (b, s))"

definition check_initial_state :: "'s callback \<Rightarrow> bool \<Rightarrow> button \<times> 's \<Rightarrow> (bool, button \<times> 's) res" where
  "check_initial_state on_pressed line bs =
     (let b = fst bs; s = snd bs; current_state = is_pressed b line;
          b1 = b \<lparr> last_state := Some current_state \<rparr>
      in case (current_state, on_pressed) of
           (True, Some pressed) \<Rightarrow>
             (case pressed s of
                Ok u s1 \<Rightarrow> Ok True (b1, s1)
              | Raise exc s1 \<Rightarrow> Raise exc (b1, s1)
              | NoReturn \<Rightarrow> NoReturn)
         | _ \<Rightarrow> Ok False (b1, s))"

definition close_button :: "button \<Rightarrow> button" where
  "close_button b = b \<lparr> hw_button := False \<rparr>"

section \<open>recorder.py: the recording service\<close>

definition POLL_INTERVAL :: nat where
  "POLL_INTERVAL = 50"

record service =
  output_dir :: Path
  status :: "string list"  \<comment> \<open>the messages given to the status callback, oldest first\<close>
  running :: bool
  proc :: "nat option"
  current_h264 :: "Path option"

text \<open>
  What the surroundings answer during one step of the service: the level of the input
  line, the wall-clock stamp \<open>datetime.now().strftime("%Y%m%d_%H%M%S")\<close>, the answers to
  the controller, whether the recorded file exists, and the shutdown signal delivered
  during the step, if any.
\<close>

record tick =
  line_level :: bool
  timestamp :: string
  cam :: camera_env
  h264_exists :: bool
  shutdown_signal :: "signal option"

definition say :: "string \<Rightarrow> service \<Rightarrow> service" where
  "say msg s = s \<lparr> status := status s @ [msg] \<rparr>"

definition recording :: "service \<times> world \<Rightarrow> bool" where
  "recording sw = (case proc (fst sw) of None \<Rightarrow> False | Some h \<Rightarrow> \<not> poll_exited (snd sw) h)"

definition on_button_pressed :: "tick \<Rightarrow> service \<times> world \<Rightarrow> (unit, service \<times> world) res" where
  "on_button_pressed env sw =
     (let s = fst sw; w = snd sw in
      if recording sw then Ok () (say ''Already recording, ignoring press'' s, w)
      else
        let h264 = joinpath (output_dir s) (''rec_'' @ timestamp env @ ''.h264'');
            s1 = say (''START -> '' @ str_path h264) (s \<lparr> current_h264 := Some h264 \<rparr>)
        in (case start_recording (cam env) w h264 DEFAULT_FPS of
              (Inr h, w1) \<Rightarrow> Ok () (s1 \<lparr> proc := Some h \<rparr>, w1)
            | (Inl exc, w1) \<Rightarrow>
                Ok () ((say (''ERROR starting recording: '' @ str_exn exc) s1)
                         \<lparr> proc := None, current_h264 := None \<rparr>, w1)))"

text \<open>
  In the model \<open>stop_recording\<close> raises nothing, so the handler of the \<open>try\<close> around it
  has no branch here; its \<open>finally\<close> clears the handle.
\<close>

definition on_button_released :: "tick \<Rightarrow> service \<times> world \<Rightarrow> (unit, service \<times> world) res" where
  "on_button_released env sw =
     (let s = fst sw; w = snd sw in
      if \<not> recording sw then Ok () (say ''Not recording, ignoring release'' s, w)
      else
        let s1 = say ''STOP...'' s in
        (case stop_recording w (proc s1) default_stop_timeout of
           None \<Rightarrow> NoReturn
         | Some w1 \<Rightarrow>
             let s2 = s1 \<lparr> proc := None \<rparr> in
             (case current_h264 s2 of
                None \<Rightarrow> Ok () (s2 \<lparr> current_h264 := None \<rparr>, w1)
              | Some h264 \<Rightarrow>
                  if \<not> h264_exists env then Ok () (s2 \<lparr> current_h264 := None \<rparr>, w1)
                  else
                    (case with_suffix h264 ''.mp4'' of
                       Inl exc \<Rightarrow> Raise exc (s2, w1)
                     | Inr mp4_path \<Rightarrow>
                         let s3 = say (''MP4 -> '' @ str_path mp4_path) s2 in
                         (case convert_to_mp4 (cam env) w1 h264 False of
                            (Inr mp4, w2) \<Rightarrow> Ok () (s3 \<lparr> current_h264 := None \<rparr>, w2)
                          | (Inl exc, w2) \<Rightarrow>
                              Ok () ((say (''ERROR converting to MP4: '' @ str_exn exc) s3)
                                       \<lparr> current_h264 := None \<rparr>, w2))))))"

fun signal_name :: "signal \<Rightarrow> string" where
  "signal_name SIGINT = ''SIGINT''"
| "signal_name SIGTERM = ''SIGTERM''"
| "signal_name SIGKILL = ''SIGKILL''"

definition handle_shutdown :: "signal \<Rightarrow> service \<Rightarrow> service" where
  "handle_shutdown signum s =
     (say ([CHR 0x0A] @ ''Received '' @ signal_name signum @ '', shutting down...'' ) s)
       \<lparr> running := False \<rparr>"

type_synonym sys = "button \<times> service \<times> world"

definition sleep :: "nat \<Rightarrow> world \<Rightarrow> world" where
  "sleep ms w = w \<lparr> now := now w + ms \<rparr>"

text \<open>
  The signal handler runs between two instructions of the main thread; a signal that
  arrives during an iteration of the loop is handled here at the end of the iteration,
  before the loop tests \<open>_running\<close> again.
\<close>

definition deliver_shutdown :: "tick \<Rightarrow> sys \<Rightarrow> sys" where
  "deliver_shutdown env st =
     (case shutdown_signal env of
        None \<Rightarrow> st
      | Some signum \<Rightarrow> (fst st, handle_shutdown signum (fst (snd st)), snd (snd st)))"

text \<open>
  The loop \<open>while self._running: poll(); sleep\<close>, one element of the list for each
  iteration. When the list is used up and the loop has not ended, it has not returned.
\<close>

fun run_loop :: "tick list \<Rightarrow> sys \<Rightarrow> (unit, sys) res" where
  "run_loop [] st = (if running (fst (snd st)) then NoReturn else Ok () st)"
| "run_loop (env # envs) st =
     (if \<not> running (fst (snd st)) then Ok () st
      else
        (case poll (Some (on_button_pressed env)) (Some (on_button_released env))
                (line_level env) st of
           Ok u (b, s, w) \<Rightarrow> run_loop envs (deliver_shutdown env (b, s, sleep POLL_INTERVAL w))
         | Raise exc st1 \<Rightarrow> Raise exc st1
         | NoReturn \<Rightarrow> NoReturn))"

text \<open>The \<open>finally\<close> block of \<open>run\<close>.\<close>

definition teardown :: "tick \<Rightarrow> sys \<Rightarrow> (unit, sys) res" where
  "teardown env st =
     (let b = fst st; s = fst (snd st); w = snd (snd st) in
      case (if recording (s, w)
            then on_button_released env (say ''Stopping active recording...'' s, w)
            else Ok () (s, w)) of
        Ok u (s1, w1) \<Rightarrow> Ok () (close_button b, say ''Service stopped.'' s1, w1)
      | Raise exc (s1, w1) \<Rightarrow> Raise exc (b, s1, w1)
      | NoReturn \<Rightarrow> NoReturn)"

definition service_run :: "tick \<Rightarrow> tick list \<Rightarrow> tick \<Rightarrow> sys \<Rightarrow> (int, sys) res" where
  "service_run startup envs final st =
     (let b = fst st; s = fst (snd st); w = snd (snd st);
          s1 = say (''Output directory: '' @ str_path (output_dir s))
                 (say ''Ready. Latching switch: ON=start, OFF=stop+mp4'' s)
      in case check_initial_state (Some (on_button_pressed startup)) (line_level startup)
                (b, s1, w) of
           NoReturn \<Rightarrow> NoReturn
         | Raise exc st1 \<Rightarrow> Raise exc st1
         | Ok was_on (b2, s2, w2) \<Rightarrow>
             let s3 = (if was_on then say ''Button was ON at startup, recording started'' s2 else s2);
                 s4 = s3 \<lparr> running := True \<rparr>
             in (case run_loop envs (b2, s4, w2) of
                   NoReturn \<Rightarrow> NoReturn
                 | Ok u st5 \<Rightarrow>
                     (case teardown final st5 of
                        Ok u st6 \<Rightarrow> Ok 0 st6
                      | Raise exc st6 \<Rightarrow> Raise exc st6
                      | NoReturn \<Rightarrow> NoReturn)
                 | Raise exc st5 \<Rightarrow>
                     (case teardown final st5 of
                        Ok u st6 \<Rightarrow> Raise exc st6
                      | Raise exc2 st6 \<Rightarrow> Raise exc2 st6
                      | NoReturn \<Rightarrow> NoReturn)))"

text \<open>
  \<open>RecordingService.__init__\<close> and the function \<open>run\<close> of the module: the service is
  built (the output directory is created, the button is opened) and run.
\<close>

record service_env =
  output_mkdir_error :: "exn option"
  fake_gpio :: bool  \<comment> \<open>\<open>SLITCAM_FAKE_GPIO\<close> is \<open>1\<close>\<close>
  gpiozero_error :: "exn option"

definition new_service :: "service_env \<Rightarrow> Path \<Rightarrow> nat \<Rightarrow> exn + button \<times> service" where
  "new_service env dir pin =
     (case output_mkdir_error env of
        Some exc \<Rightarrow> Inl exc
      | None \<Rightarrow>
          (case new_button (fake_gpio env) (gpiozero_error env) pin True of
             Inl exc \<Rightarrow> Inl exc
           | Inr b \<Rightarrow>
               Inr (b, \<lparr> output_dir = dir, status = [], running = False, proc = None,
                        current_h264 = None \<rparr>)))"

definition recorder_run ::
  "service_env \<Rightarrow> tick \<Rightarrow> tick list \<Rightarrow> tick \<Rightarrow> Path \<Rightarrow> nat \<Rightarrow> world \<Rightarrow> exn + (int, sys) res" where
  "recorder_run env startup envs final dir pin w =
     (case new_service env dir pin of
        Inl exc \<Rightarrow> Inl exc
      | Inr (b, s) \<Rightarrow> Inr (service_run startup envs final (b, s, w)))"

section \<open>cli.py: the record-service command\<close>

definition RECORDINGS_SUBDIR :: string where
  "RECORDINGS_SUBDIR = ''slitlamp_recordings''"

text \<open>
  \<open>_cmd_record_service\<close> up to the call of the recorder: the exit code it returns
  without starting the service, or the output directory it hands to the recorder.
\<close>

definition record_service_output_dir :: "storage_env \<Rightarrow> camera_env \<Rightarrow> int + Path" where
  "record_service_output_dir senv cenv =
     (case choose_usb_target senv of
        None \<Rightarrow> Inl 2
      | Some target \<Rightarrow>
          (case camera_sanity_check cenv of
             Inl exc \<Rightarrow> Inl 1
           | Inr cmd \<Rightarrow> Inr (joinpath (mountpoint target) RECORDINGS_SUBDIR)))"

definition cmd_record_service ::
  "storage_env \<Rightarrow> camera_env \<Rightarrow> service_env \<Rightarrow> tick \<Rightarrow> tick list \<Rightarrow> tick \<Rightarrow> nat \<Rightarrow> world
     \<Rightarrow> int + exn + (int, sys) res" where
  "cmd_record_service senv cenv env startup envs final pin w =
     (case record_service_output_dir senv cenv of
        Inl code \<Rightarrow> Inl code
      | Inr dir \<Rightarrow> Inr (recorder_run env startup envs final dir pin w))"

text \<open>
  \<open>_cmd_record_test\<close> up to the recording: the exit code, or the file it records to
  (\<open>stamp\<close> is the wall-clock stamp).
\<close>

definition record_test_output :: "storage_env \<Rightarrow> camera_env \<Rightarrow> string \<Rightarrow> int + Path" where
  "record_test_output senv cenv stamp =
     (case choose_usb_target senv of
        None \<Rightarrow> Inl 2
      | Some target \<Rightarrow>
          (case camera_sanity_check cenv of
             Inl exc \<Rightarrow> Inl 1
           | Inr cmd \<Rightarrow> Inr (joinpath (mountpoint target) (''test_'' @ stamp @ ''.h264''))))"

section \<open>Notions used in the statements about the service\<close>

text \<open>
  The three tiers of the specification, as the calls they make on the handle \<open>h\<close> from
  the time \<open>t0\<close> on: an interrupt and a wait of at most \<open>timeout\<close>; if the process
  has not exited by then, a terminate signal and a second wait of at most \<open>timeout\<close>; if
  it still has not exited, a kill and a wait without limit.
\<close>

definition escalation_calls :: "nat \<Rightarrow> nat \<Rightarrow> nat \<Rightarrow> proc \<Rightarrow> (nat \<times> call) list" where
  "escalation_calls h t0 timeout p =
     [(t0, SendSignal h SIGINT), (t0, Wait h (Some timeout))] @
     (let p1 = deliver SIGINT t0 p in
      if exited (t0 + timeout) p1 then []
      else
        [(t0 + timeout, SendSignal h SIGTERM), (t0 + timeout, Wait h (Some timeout))] @
        (let p2 = deliver SIGTERM (t0 + timeout) p1 in
         if exited (t0 + 2 * timeout) p2 then []
         else [(t0 + 2 * timeout, SendSignal h SIGKILL), (t0 + 2 * timeout, Wait h None)]))"

text \<open>The handles of the capture processes that have not exited.\<close>

definition live_handles :: "world \<Rightarrow> nat list" where
  "live_handles w = filter (\<lambda>h. \<not> poll_exited w h) [0..<length (procs w)]"

text \<open>
  The handle the service holds is one that \<open>Popen\<close> returned, and a capture process
  that has not exited is the one of that handle.
\<close>

definition session_inv :: "service \<times> world \<Rightarrow> bool" where
  "session_inv sw =
     ((case proc (fst sw) of None \<Rightarrow> True | Some h \<Rightarrow> h < length (procs (snd sw)))
      \<and> list_all (\<lambda>h. proc (fst sw) = Some h) (live_handles (snd sw)))"

text \<open>
  Edges given to the service one after the other; each comes with the time that passes
  before it and with the answers of the surroundings to the handler.
\<close>

datatype edge = Pressed | Released

fun dispatch :: "edge \<Rightarrow> tick \<Rightarrow> service \<times> world \<Rightarrow> (unit, service \<times> world) res" where
  "dispatch Pressed env sw = on_button_pressed env sw"
| "dispatch Released env sw = on_button_released env sw"

fun feed :: "(nat \<times> edge \<times> tick) list \<Rightarrow> service \<times> world \<Rightarrow> (unit, service \<times> world) res" where
  "feed [] sw = Ok () sw"
| "feed ((ms, e, env) # es) sw =
     (case dispatch e env (fst sw, sleep ms (snd sw)) of
        Ok u sw1 \<Rightarrow> feed es sw1
      | Raise exc sw1 \<Rightarrow> Raise exc sw1
      | NoReturn \<Rightarrow> NoReturn)"

text \<open>The call returns or raises, and does so in a state that satisfies \<open>P\<close>.\<close>

definition returns_in :: "('s \<Rightarrow> bool) \<Rightarrow> ('a, 's) res \<Rightarrow> bool" where
  "returns_in P r = (case r of Ok v st \<Rightarrow> P st | Raise exc st \<Rightarrow> P st | NoReturn \<Rightarrow> False)"

text \<open>
  The calls of the finalize step of the specification, made at the time \<open>t\<close>: the
  conversion of the raw stream into the container by a stream copy that regenerates the
  presentation timestamps, and the filesystem sync after it.
\<close>

definition finalize_calls :: "nat \<Rightarrow> Path \<Rightarrow> Path \<Rightarrow> (nat \<times> call) list" where
  "finalize_calls t h264 mp4 =
     [(t, RunCmd [''ffmpeg'', ''-y'', ''-fflags'', ''+genpts'', ''-r'', ''25'',
                  ''-i'', str_path h264, ''-c'', ''copy'', str_path mp4]),
      (t, RunCmd [''sync''])]"

text \<open>How often a capture process has been launched, successfully or not.\<close>

definition popen_attempts :: "world \<Rightarrow> nat" where
  "popen_attempts w =
     length (filter (\<lambda>c. case snd c of Popen args \<Rightarrow> True | _ \<Rightarrow> False) (calls w))"

section \<open>Concrete inputs\<close>

definition usb_partition :: "string \<Rightarrow> string \<Rightarrow> string \<Rightarrow> DeviceNode" where
  "usb_partition dev mnt lbl =
     DeviceNode \<lparr> node_name = Some dev, node_kname = Some dev, node_path = Some (''/dev/'' @ dev),
                  node_tran = Some ''usb'', node_rm = JBool True, node_hotplug = JBool True,
                  node_mountpoint = Some mnt, node_fstype = Some ''vfat'',
                  node_label = Some lbl, node_size = Some ''32G'' \<rparr> []"

definition lsblk_env :: "DeviceNode list \<Rightarrow> storage_env" where
  "lsblk_env devs =
     \<lparr> storage_dir_override = None, expanduser = (\<lambda>p. p), lsblk_found = True,
       lsblk_returncode = 0, lsblk_stdout = Some (Some devs), writable_dir = (\<lambda>p. True),
       str_upper = upper \<rparr>"

definition six_sticks :: "DeviceNode list" where
  "six_sticks =
     [usb_partition ''sda1'' ''/media/a'' ''zzz'',
      usb_partition ''sdb1'' ''/media/b'' ''slitlamp_a'',
      usb_partition ''sdc1'' ''/media/c'' ''SLITLAMP_B'',
      usb_partition ''sdd1'' ''/media/d'' ''abc'',
      usb_partition ''sde1'' ''/media/e'' ''ABD'',
      usb_partition ''sdf1'' ''/media/f'' ''SLITLAMP_A'']"

definition case_sticks :: "DeviceNode list" where
  "case_sticks =
     [usb_partition ''sda1'' ''/media/a'' ''abc'',
      usb_partition ''sdb1'' ''/media/b'' ''ABD'']"

definition three_sticks :: "DeviceNode list" where
  "three_sticks =
     [usb_partition ''sda1'' ''/media/a'' ''OTHER'',
      usb_partition ''sdb1'' ''/media/b'' ''SLITLAMP_B'',
      usb_partition ''sdc1'' ''/media/c'' ''SLITLAMP_A'']"

definition system_disk :: "DeviceNode list" where
  "system_disk =
     [DeviceNode \<lparr> node_name = Some ''sda'', node_kname = Some ''sda'', node_path = Some ''/dev/sda'',
                   node_tran = Some ''usb'', node_rm = JBool True, node_hotplug = JBool True,
                   node_mountpoint = None, node_fstype = None, node_label = None,
                   node_size = Some ''64G'' \<rparr>
        [usb_partition ''sda1'' ''/boot/firmware'' ''bootfs'',
         usb_partition ''sda2'' ''/'' ''rootfs'',
         usb_partition ''sda3'' ''/media/usb'' ''SLITLAMP'']]"

definition no_lsblk_env :: storage_env where
  "no_lsblk_env = (lsblk_env three_sticks) \<lparr> lsblk_found := False \<rparr>"

definition steady_child :: proc where
  "steady_child = \<lparr> exit_time = None, int_delay = Some 200, term_delay = Some 100, kill_delay = 10 \<rparr>"

definition stubborn_child :: proc where
  "stubborn_child = \<lparr> exit_time = None, int_delay = None, term_delay = None, kill_delay = 10 \<rparr>"

definition pi_camera :: camera_env where
  "pi_camera =
     \<lparr> have_rpicam_vid = True, have_libcamera_vid = False, camera_args_var = None,
       shlex_split = (\<lambda>s. Inr [s]), mkdir_error = None, popen_result = Inr steady_child,
       have_ffmpeg = True, ffmpeg_returncode = 0, mp4_exists = True \<rparr>"

definition a_tick :: "bool \<Rightarrow> signal option \<Rightarrow> tick" where
  "a_tick lvl sig =
     \<lparr> line_level = lvl, timestamp = ''20260101_120000'', cam = pi_camera, h264_exists = True,
       shutdown_signal = sig \<rparr>"

definition fresh_world :: world where
  "fresh_world = \<lparr> now = 0, procs = [], calls = [] \<rparr>"

definition fresh_service :: service where
  "fresh_service =
     \<lparr> output_dir = Path ''/'' [''media'', ''usb'', ''slitlamp-recordings'', ''slitlamp_recordings''],
       status = [], running = False, proc = None, current_h264 = None \<rparr>"

definition fresh_button :: button where
  "fresh_button =
     \<lparr> gpio_pin = 17, pull_up = True, fake_mode = False, hw_button = True, last_state = None \<rparr>"

definition busy_world :: world where
  "busy_world = \<lparr> now = 1000, procs = [steady_child], calls = [] \<rparr>"

definition busy_service :: service where
  "busy_service = fresh_service \<lparr> proc := Some 0 \<rparr>"

definition stubborn_world :: world where
  "stubborn_world = \<lparr> now = 0, procs = [stubborn_child], calls = [] \<rparr>"

definition started_button :: button where
  "started_button = fresh_button \<lparr> last_state := Some True \<rparr>"

definition started_service :: service where
  "started_service =
     fresh_service
       \<lparr> status :=
           [''Ready. Latching switch: ON=start, OFF=stop+mp4'',
            ''Output directory: /media/usb/slitlamp-recordings/slitlamp_recordings'',
            ''START -> /media/usb/slitlamp-recordings/slitlamp_recordings/rec_20260101_120000.h264''],
         proc := Some 0,
         current_h264 :=
           Some (Path ''/'' [''media'', ''usb'', ''slitlamp-recordings'', ''slitlamp_recordings'',
                            ''rec_20260101_120000.h264'']) \<rparr>"

definition started_world :: world where
  "started_world =
     \<lparr> now = 0, procs = [steady_child],
       calls =
         [(0, Mkdir (Path ''/'' [''media'', ''usb'', ''slitlamp-recordings'', ''slitlamp_recordings''])),
          (0, Popen [''rpicam-vid'', ''-t'', ''0'', ''--codec'', ''h264'', ''--framerate'', ''25'',
                ''--inline'', ''--nopreview'', ''-o'',
                ''/media/usb/slitlamp-recordings/slitlamp_recordings/rec_20260101_120000.h264''])] \<rparr>"

definition signalled_service :: service where
  "signalled_service =
     started_service
       \<lparr> status := status started_service @
           [''Button was ON at startup, recording started'',
            CHR 0x0A # ''Received SIGTERM, shutting down...''],
         running := False \<rparr>"

definition signalled_world :: world where
  "signalled_world = started_world \<lparr> now := 100 \<rparr>"

definition session_h264 :: Path where
  "session_h264 = Path ''/'' [''media'', ''usb'', ''slitlamp-recordings'', ''slitlamp_recordings'',
                              ''rec_20260101_120000.h264'']"

definition session_mp4 :: Path where
  "session_mp4 = Path ''/'' [''media'', ''usb'', ''slitlamp-recordings'', ''slitlamp_recordings'',
                             ''rec_20260101_120000.mp4'']"

definition no_camera :: camera_env where
  "no_camera = pi_camera \<lparr> have_rpicam_vid := False \<rparr>"

definition crashed_child :: proc where
  "crashed_child = steady_child \<lparr> exit_time := Some 500 \<rparr>"

definition crashing_tick :: tick where
  "crashing_tick = (a_tick True None) \<lparr> cam := pi_camera \<lparr> popen_result := Inr crashed_child \<rparr> \<rparr>"

definition abandoned_service :: service where
  "abandoned_service =
     fresh_service
       \<lparr> status :=
           [''START -> /media/usb/slitlamp-recordings/slitlamp_recordings/rec_20260101_120000.h264''],
         proc := Some 0,
         current_h264 :=
           Some (Path ''/'' [''media'', ''usb'', ''slitlamp-recordings'', ''slitlamp_recordings'',
                            ''rec_20260101_120000.h264'']) \<rparr>"

definition abandoned_world :: world where
  "abandoned_world =
     \<lparr> now = 0, procs = [crashed_child],
       calls =
         [(0, Mkdir (Path ''/'' [''media'', ''usb'', ''slitlamp-recordings'', ''slitlamp_recordings''])),
          (0, Popen [''rpicam-vid'', ''-t'', ''0'', ''--codec'', ''h264'', ''--framerate'', ''25'',
                ''--inline'', ''--nopreview'', ''-o'',
                ''/media/usb/slitlamp-recordings/slitlamp_recordings/rec_20260101_120000.h264''])] \<rparr>"

definition one_stick_env :: storage_env where
  "one_stick_env = lsblk_env [usb_partition ''sda1'' ''/media/usb'' ''SLITLAMP'']"

section \<open>Properties of the resolver\<close>

subsection \<open>The reversed stable sort\<close>

lemma mset_sort_reverse: "mset (sort_reverse f xs) = mset xs"
  by (simp add: sort_reverse_def)

lemma set_sort_reverse: "set (sort_reverse f xs) = set xs"
  by (simp add: sort_reverse_def)

lemma sorted_sort_reverse: "sorted_wrt (\<lambda>a b. f b \<le> f a) (sort_reverse f xs)"
proof -
  have "sorted (map f (sort_key f (rev xs)))" by simp
  then have "sorted_wrt (\<lambda>x y. f x \<le> f y) (sort_key f (rev xs))"
    by (simp add: sorted_map)
  then show ?thesis
    by (simp add: sort_reverse_def sorted_wrt_rev)
qed

lemma stable_sort_reverse:
  "filter (\<lambda>y. f y = k) (sort_reverse f xs) = filter (\<lambda>y. f y = k) xs"
proof -
  have "filter (\<lambda>y. f y = k) (sort_key f (rev xs)) = filter (\<lambda>y. f y = k) (rev xs)"
    by (rule sort_key_stable)
  then have "rev (filter (\<lambda>y. f y = k) (sort_key f (rev xs))) = filter (\<lambda>y. f y = k) xs"
    by (simp add: rev_filter)
  then show ?thesis
    by (simp add: sort_reverse_def rev_filter)
qed

subsection \<open>Parsing of mount points\<close>

lemma split_on_nonempty: "split_on c s \<noteq> []"
  by (induction s) (auto split: list.splits)

lemma split_on_Cons_other:
  "x \<noteq> c \<Longrightarrow> split_on c (x # xs) = (x # hd (split_on c xs)) # tl (split_on c xs)"
  using split_on_nonempty [of c xs] by (cases "split_on c xs") auto

lemma split_on_Cons_same: "split_on c (c # xs) = [] # split_on c xs"
  by simp

lemma parse_root: "parse_path ''/'' = Path ''/'' []"
  by (simp add: parse_path_def path_components_def)

lemma join_with_Cons: "\<exists>r. join_with sep (x # xs) = x @ r"
  by (cases xs) auto

lemma boot_prefix_kept:
  assumes "prefix ''/boot'' m"
  shows "prefix ''/boot'' (str_path (parse_path m))"
proof -
  from assms obtain r where m: "m = ''/boot'' @ r" by (auto simp: prefix_def)
  define w where "w = hd (split_on CHR ''/'' r)"
  define ws where "ws = tl (split_on CHR ''/'' r)"
  have sp: "split_on CHR ''/'' m = [] # (''boot'' @ w) # ws"
    unfolding m w_def ws_def
    by (simp add: split_on_Cons_other split_on_Cons_same del: split_on.simps(2))
  have pc: "path_components m = (''boot'' @ w) # filter (\<lambda>c. c \<noteq> [] \<and> c \<noteq> ''.'') ws"
    by (simp add: path_components_def sp)
  have pp: "parse_path m = Path ''/'' (path_components m)"
    by (simp add: parse_path_def m)
  obtain q where "join_with ''/'' (path_components m) = (''boot'' @ w) @ q"
    using join_with_Cons [of "''/''" "''boot'' @ w"] unfolding pc by blast
  then show ?thesis
    by (simp add: pp str_path_def pc)
qed

lemma candidate_system_mount: "system_mount n \<Longrightarrow> candidate env d n = None"
  by (auto simp: system_mount_def candidate_def Let_def boot_prefix_kept split: option.splits)

lemma collect_without_system:
  "collect_candidates env d (filter (\<lambda>n. \<not> system_mount n) ns) = collect_candidates env d ns"
  by (induction ns)
    (auto simp: collect_candidates_def List.map_filter_simps candidate_system_mount
          split: option.splits)

lemma collect_origin:
  "t \<in> set (collect_candidates env d ns) \<Longrightarrow>
     \<exists>n \<in> set ns. candidate env d n = Some t \<and> \<not> system_mount n"
  using candidate_system_mount
  by (fastforce simp: collect_candidates_def List.map_filter_def)

lemma find_by_lsblk:
  "\<not> override_set env \<Longrightarrow> run_lsblk_json env = Inr tree \<Longrightarrow>
     find_usb_mount_targets env d ps =
       sort_reverse (score env ps) (collect_candidates env d (flatten_lsblk tree))"
  by (simp add: find_usb_mount_targets_def)

subsection \<open>The key of the sort\<close>

lemma score_folded_key: "score env ps t = folded_key env ps t"
  by (simp add: score_def folded_key_def preferred_label_flag_def folded_label_def
        label_text_def or_empty_def Let_def list_ex_iff)

lemma folded_key_order:
  "folded_key env ps b \<le> folded_key env ps a \<longleftrightarrow> not_ranked_below env ps a b"
  by (auto simp: folded_key_def not_ranked_below_def less_eq_prod_def)

lemma sorted_by_rank:
  "sorted_wrt (not_ranked_below env ps) (sort_reverse (score env ps) cs)"
proof -
  have "sorted_wrt (\<lambda>a b. score env ps b \<le> score env ps a) (sort_reverse (score env ps) cs)"
    by (rule sorted_sort_reverse)
  then show ?thesis
    by (simp add: score_folded_key folded_key_order)
qed

lemma example_order:
  assumes "map (str_upper env) [''OTHER'', ''SLITLAMP_B'', ''SLITLAMP_A''] =
             [''OTHER'', ''SLITLAMP_B'', ''SLITLAMP_A'']"
    and "map label cs = [Some ''OTHER'', Some ''SLITLAMP_B'', Some ''SLITLAMP_A'']"
  shows "map label (sort_reverse (score env [''SLITLAMP'']) cs) =
           [Some ''SLITLAMP_B'', Some ''SLITLAMP_A'', Some ''OTHER'']"
proof -
  from assms(2) obtain a b c where cs: "cs = [a, b, c]"
    and l: "label a = Some ''OTHER''" "label b = Some ''SLITLAMP_B''" "label c = Some ''SLITLAMP_A''"
    by (auto simp: map_eq_Cons_conv)
  from assms(1) have u: "str_upper env ''OTHER'' = ''OTHER''"
    "str_upper env ''SLITLAMP_B'' = ''SLITLAMP_B''" "str_upper env ''SLITLAMP_A'' = ''SLITLAMP_A''"
    by simp_all
  show ?thesis
    unfolding cs
    by (simp add: sort_reverse_def score_def l u or_empty_def Let_def)
qed

text \<open>
  Claim C4. When the listing of block devices is used, the targets returned by
  \<open>find_usb_mount_targets\<close> are the surviving candidates, rearranged (nothing lost,
  nothing added) into descending order of the key (preferred-label flag, label in upper
  case, mount point text): of two targets the one with the larger flag comes first; with
  equal flags the one with the larger upper-case label; with these equal too the one
  with the larger mount point text; candidates with equal keys keep their order. The flag
  is 1 exactly when the upper-case label starts with one of the configured prefixes.
  Candidates labelled OTHER, SLITLAMP_B, SLITLAMP_A with the prefix SLITLAMP come out as
  SLITLAMP_B, SLITLAMP_A, OTHER. \<open>choose_usb_target\<close> returns the first target of that
  order, below which no candidate is ranked, and nothing when there is none.
\<close>

theorem resolver_sorts_descending:
  assumes "\<not> override_set env" and "run_lsblk_json env = Inr tree"
  shows "mset (find_usb_mount_targets env d ps) = mset (collect_candidates env d (flatten_lsblk tree))
    \<and> sorted_wrt (not_ranked_below env ps) (find_usb_mount_targets env d ps)
    \<and> sorted_wrt (\<lambda>a b. folded_key env ps b \<le> folded_key env ps a)
         (find_usb_mount_targets env d ps)
    \<and> (\<forall>k. filter (\<lambda>t. folded_key env ps t = k) (find_usb_mount_targets env d ps) =
            filter (\<lambda>t. folded_key env ps t = k) (collect_candidates env d (flatten_lsblk tree)))
    \<and> (map (str_upper env) [''OTHER'', ''SLITLAMP_B'', ''SLITLAMP_A''] =
          [''OTHER'', ''SLITLAMP_B'', ''SLITLAMP_A'']
        \<and> map label (collect_candidates env d (flatten_lsblk tree)) =
          [Some ''OTHER'', Some ''SLITLAMP_B'', Some ''SLITLAMP_A''] \<longrightarrow>
        map label (find_usb_mount_targets env d [''SLITLAMP'']) =
          [Some ''SLITLAMP_B'', Some ''SLITLAMP_A'', Some ''OTHER''])
    \<and> choose_usb_target env =
        (case find_usb_mount_targets env default_recordings_dir_name default_prefer_label_prefixes of
           [] \<Rightarrow> None | t # ts \<Rightarrow> Some t)
    \<and> (\<forall>t. choose_usb_target env = Some t \<longrightarrow>
          (\<forall>c \<in> set (collect_candidates env default_recordings_dir_name (flatten_lsblk tree)).
             not_ranked_below env default_prefer_label_prefixes t c))"
proof -
  note f = find_by_lsblk [OF assms]
  have best: "not_ranked_below env default_prefer_label_prefixes t c"
    if t: "choose_usb_target env = Some t"
      and c: "c \<in> set (collect_candidates env default_recordings_dir_name (flatten_lsblk tree))"
    for t c
  proof -
    let ?out = "find_usb_mount_targets env default_recordings_dir_name default_prefer_label_prefixes"
    from t obtain ts where out: "?out = t # ts"
      by (auto simp: choose_usb_target_def split: list.splits)
    have s: "sorted_wrt (\<lambda>a b. folded_key env default_prefer_label_prefixes b
                              \<le> folded_key env default_prefer_label_prefixes a) ?out"
      unfolding f using sorted_sort_reverse [of "score env default_prefer_label_prefixes"]
      by (simp add: score_folded_key)
    have "c \<in> set ?out"
      unfolding f using c by (simp add: set_sort_reverse)
    with s have "folded_key env default_prefer_label_prefixes c
                   \<le> folded_key env default_prefer_label_prefixes t"
      unfolding out by auto
    then show ?thesis
      by (simp add: folded_key_order)
  qed
  have sorted: "sorted_wrt (\<lambda>a b. folded_key env ps b \<le> folded_key env ps a)
                  (find_usb_mount_targets env d ps)"
    unfolding f using sorted_sort_reverse [of "score env ps"]
    by (simp add: score_folded_key)
  have stable: "filter (\<lambda>t. folded_key env ps t = k) (find_usb_mount_targets env d ps) =
            filter (\<lambda>t. folded_key env ps t = k) (collect_candidates env d (flatten_lsblk tree))"
    for k
    unfolding f using stable_sort_reverse [of "score env ps" k]
    by (simp add: score_folded_key)
  have rank: "sorted_wrt (not_ranked_below env ps) (find_usb_mount_targets env d ps)"
    unfolding f by (rule sorted_by_rank)
  have example: "map label (find_usb_mount_targets env d [''SLITLAMP'']) =
          [Some ''SLITLAMP_B'', Some ''SLITLAMP_A'', Some ''OTHER'']"
    if "map (str_upper env) [''OTHER'', ''SLITLAMP_B'', ''SLITLAMP_A''] =
          [''OTHER'', ''SLITLAMP_B'', ''SLITLAMP_A'']"
      and "map label (collect_candidates env d (flatten_lsblk tree)) =
          [Some ''OTHER'', Some ''SLITLAMP_B'', Some ''SLITLAMP_A'']"
    unfolding find_by_lsblk [OF assms] using that by (rule example_order)
  have perm: "mset (find_usb_mount_targets env d ps) =
                mset (collect_candidates env d (flatten_lsblk tree))"
    by (simp add: f mset_sort_reverse)
  have first: "choose_usb_target env =
        (case find_usb_mount_targets env default_recordings_dir_name default_prefer_label_prefixes of
           [] \<Rightarrow> None | t # ts \<Rightarrow> Some t)"
    by (simp add: choose_usb_target_def)
  have stable': "\<forall>k. filter (\<lambda>t. folded_key env ps t = k) (find_usb_mount_targets env d ps) =
            filter (\<lambda>t. folded_key env ps t = k) (collect_candidates env d (flatten_lsblk tree))"
    by (rule allI) (rule stable)
  have example': "map (str_upper env) [''OTHER'', ''SLITLAMP_B'', ''SLITLAMP_A''] =
          [''OTHER'', ''SLITLAMP_B'', ''SLITLAMP_A'']
        \<and> map label (collect_candidates env d (flatten_lsblk tree)) =
          [Some ''OTHER'', Some ''SLITLAMP_B'', Some ''SLITLAMP_A''] \<longrightarrow>
        map label (find_usb_mount_targets env d [''SLITLAMP'']) =
          [Some ''SLITLAMP_B'', Some ''SLITLAMP_A'', Some ''OTHER'']"
  proof
    assume x: "map (str_upper env) [''OTHER'', ''SLITLAMP_B'', ''SLITLAMP_A''] =
          [''OTHER'', ''SLITLAMP_B'', ''SLITLAMP_A'']
        \<and> map label (collect_candidates env d (flatten_lsblk tree)) =
          [Some ''OTHER'', Some ''SLITLAMP_B'', Some ''SLITLAMP_A'']"
    show "map label (find_usb_mount_targets env d [''SLITLAMP'']) =
          [Some ''SLITLAMP_B'', Some ''SLITLAMP_A'', Some ''OTHER'']"
      by (rule example [OF x [THEN conjunct1] x [THEN conjunct2]])
  qed
  have best': "\<forall>t. choose_usb_target env = Some t \<longrightarrow>
          (\<forall>c \<in> set (collect_candidates env default_recordings_dir_name (flatten_lsblk tree)).
             not_ranked_below env default_prefer_label_prefixes t c)"
  proof (intro allI impI ballI)
    fix t c
    assume "choose_usb_target env = Some t"
      and "c \<in> set (collect_candidates env default_recordings_dir_name (flatten_lsblk tree))"
    then show "not_ranked_below env default_prefer_label_prefixes t c"
      by (rule best)
  qed
  from perm rank sorted stable' example' first best' show ?thesis
    by (intro conjI)
qed

lemma three_sticks_candidates:
  "map label (collect_candidates (lsblk_env three_sticks) ''slitlamp-recordings''
                (flatten_lsblk (Some three_sticks))) =
     [Some ''OTHER'', Some ''SLITLAMP_B'', Some ''SLITLAMP_A'']"
  by code_simp

lemma six_sticks_order:
  "map (\<lambda>t. (label_text t, str_path (mountpoint t)))
     (find_usb_mount_targets (lsblk_env six_sticks) ''slitlamp-recordings''
        [''SLITLAMP'', ''SLITLAMP_'']) =
     [(''SLITLAMP_B'', ''/media/c/slitlamp-recordings''),
      (''SLITLAMP_A'', ''/media/f/slitlamp-recordings''),
      (''slitlamp_a'', ''/media/b/slitlamp-recordings''),
      (''zzz'', ''/media/a/slitlamp-recordings''),
      (''ABD'', ''/media/e/slitlamp-recordings''),
      (''abc'', ''/media/d/slitlamp-recordings'')]"
  by code_simp

lemma six_sticks_choice:
  "map_option label_text (choose_usb_target (lsblk_env six_sticks)) = Some ''SLITLAMP_B''"
  by code_simp

theorem resolver_sorts_descending_witness:
  "\<not> override_set (lsblk_env six_sticks)
   \<and> run_lsblk_json (lsblk_env six_sticks) = Inr (Some six_sticks)
   \<and> sorted_wrt (not_ranked_below (lsblk_env six_sticks) [''SLITLAMP'', ''SLITLAMP_''])
        (find_usb_mount_targets (lsblk_env six_sticks) ''slitlamp-recordings''
           [''SLITLAMP'', ''SLITLAMP_''])
   \<and> map (\<lambda>t. (label_text t, str_path (mountpoint t)))
        (find_usb_mount_targets (lsblk_env six_sticks) ''slitlamp-recordings''
           [''SLITLAMP'', ''SLITLAMP_'']) =
       [(''SLITLAMP_B'', ''/media/c/slitlamp-recordings''),
        (''SLITLAMP_A'', ''/media/f/slitlamp-recordings''),
        (''slitlamp_a'', ''/media/b/slitlamp-recordings''),
        (''zzz'', ''/media/a/slitlamp-recordings''),
        (''ABD'', ''/media/e/slitlamp-recordings''),
        (''abc'', ''/media/d/slitlamp-recordings'')]
   \<and> map_option label_text (choose_usb_target (lsblk_env six_sticks)) = Some ''SLITLAMP_B''
   \<and> \<not> override_set (lsblk_env three_sticks)
   \<and> run_lsblk_json (lsblk_env three_sticks) = Inr (Some three_sticks)
   \<and> map label (find_usb_mount_targets (lsblk_env three_sticks) ''slitlamp-recordings'' [''SLITLAMP'']) =
       [Some ''SLITLAMP_B'', Some ''SLITLAMP_A'', Some ''OTHER'']"
proof -
  have h1: "\<not> override_set (lsblk_env devs)" for devs
    by (simp add: override_set_def lsblk_env_def)
  have h2: "run_lsblk_json (lsblk_env devs) = Inr (Some devs)" for devs
    by (simp add: run_lsblk_json_def lsblk_env_def)
  have u: "map (str_upper (lsblk_env three_sticks)) [''OTHER'', ''SLITLAMP_B'', ''SLITLAMP_A''] =
             [''OTHER'', ''SLITLAMP_B'', ''SLITLAMP_A'']"
    by (simp add: lsblk_env_def upper_def upper_char_def)
  from resolver_sorts_descending [OF h1 h2, of six_sticks "''slitlamp-recordings''"
      "[''SLITLAMP'', ''SLITLAMP_'']"]
  have s: "sorted_wrt (not_ranked_below (lsblk_env six_sticks) [''SLITLAMP'', ''SLITLAMP_''])
        (find_usb_mount_targets (lsblk_env six_sticks) ''slitlamp-recordings''
           [''SLITLAMP'', ''SLITLAMP_''])"
    by blast
  from resolver_sorts_descending [OF h1 h2, of three_sticks "''slitlamp-recordings''"
      "[''SLITLAMP'']"] u three_sticks_candidates
  have e: "map label (find_usb_mount_targets (lsblk_env three_sticks) ''slitlamp-recordings''
             [''SLITLAMP'']) = [Some ''SLITLAMP_B'', Some ''SLITLAMP_A'', Some ''OTHER'']"
    by blast
  from h1 [of six_sticks] h2 [of six_sticks] s six_sticks_order six_sticks_choice
    h1 [of three_sticks] h2 [of three_sticks] e
  show ?thesis by blast
qed

text \<open>
  With the label text as it is written in second place of the key, the order does not
  hold. Two sticks labelled abc and ABD, neither with a preferred label, come out as ABD,
  abc: in upper case ABD is the larger label, while as written abc is the larger one (a
  small letter is larger than every capital letter), so that order would have abc first.
\<close>

theorem written_label_order_refuted:
  "map label_text
     (find_usb_mount_targets (lsblk_env case_sticks) ''slitlamp-recordings'' [''SLITLAMP'']) =
     [''ABD'', ''abc'']
   \<and> \<not> sorted_wrt (claimed_order (lsblk_env case_sticks) [''SLITLAMP''])
         (find_usb_mount_targets (lsblk_env case_sticks) ''slitlamp-recordings'' [''SLITLAMP''])
   \<and> sorted_wrt (claimed_order (lsblk_env case_sticks) [''SLITLAMP''])
         (rev (find_usb_mount_targets (lsblk_env case_sticks) ''slitlamp-recordings''
                 [''SLITLAMP'']))"
  by code_simp

text \<open>
  Claim C5. A node whose mount point is \<open>/\<close> or begins with \<open>/boot\<close> contributes no
  candidate, whatever its transport, removable flag and other fields are: the loop body
  yields nothing for it, the candidates are the same as if such nodes were not listed, and
  every target of the enumeration stems from a node that is not such a system mount.
\<close>

theorem system_mounts_never_offered:
  "(system_mount n \<longrightarrow> candidate env d n = None)
   \<and> collect_candidates env d (filter (\<lambda>n. \<not> system_mount n) ns) = collect_candidates env d ns
   \<and> (\<not> override_set env \<and> t \<in> set (find_usb_mount_targets env d ps) \<longrightarrow>
        (\<exists>tree. run_lsblk_json env = Inr tree \<and>
           (\<exists>n \<in> set (flatten_lsblk tree). candidate env d n = Some t \<and> \<not> system_mount n)))"
proof -
  have "\<exists>tree. run_lsblk_json env = Inr tree \<and>
           (\<exists>n \<in> set (flatten_lsblk tree). candidate env d n = Some t \<and> \<not> system_mount n)"
    if o: "\<not> override_set env" and t: "t \<in> set (find_usb_mount_targets env d ps)"
  proof (cases "run_lsblk_json env")
    case (Inl e)
    with o t show ?thesis by (simp add: find_usb_mount_targets_def)
  next
    case (Inr tree)
    with o t have "t \<in> set (collect_candidates env d (flatten_lsblk tree))"
      by (simp add: find_by_lsblk set_sort_reverse)
    from collect_origin [OF this] Inr show ?thesis by blast
  qed
  then show ?thesis
    by (simp add: candidate_system_mount collect_without_system)
qed

theorem system_mounts_never_offered_witness:
  "system_mount (usb_partition ''sda1'' ''/boot/firmware'' ''bootfs'')
   \<and> candidate (lsblk_env system_disk) ''slitlamp-recordings''
        (usb_partition ''sda1'' ''/boot/firmware'' ''bootfs'') = None
   \<and> system_mount (usb_partition ''sda2'' ''/'' ''rootfs'')
   \<and> candidate (lsblk_env system_disk) ''slitlamp-recordings''
        (usb_partition ''sda2'' ''/'' ''rootfs'') = None
   \<and> map (\<lambda>t. str_path (mountpoint t))
        (find_usb_mount_targets (lsblk_env system_disk) ''slitlamp-recordings'' [''SLITLAMP'']) =
       [''/media/usb/slitlamp-recordings'']"
proof -
  have s1: "system_mount (usb_partition ''sda1'' ''/boot/firmware'' ''bootfs'')"
    by (simp add: system_mount_def usb_partition_def)
  have s2: "system_mount (usb_partition ''sda2'' ''/'' ''rootfs'')"
    by (simp add: system_mount_def usb_partition_def)
  have out: "map (\<lambda>t. str_path (mountpoint t))
        (find_usb_mount_targets (lsblk_env system_disk) ''slitlamp-recordings'' [''SLITLAMP'']) =
       [''/media/usb/slitlamp-recordings'']"
    by code_simp
  show ?thesis
    using system_mounts_never_offered [of "usb_partition ''sda1'' ''/boot/firmware'' ''bootfs''"
        "lsblk_env system_disk" "''slitlamp-recordings''"]
      system_mounts_never_offered [of "usb_partition ''sda2'' ''/'' ''rootfs''"
        "lsblk_env system_disk" "''slitlamp-recordings''"]
      s1 s2 out
    by simp
qed

text \<open>
  Claim C9. When the enumeration tool is called (no storage override is configured) and
  it is missing, exits with a non-zero status or prints something that is not JSON, the
  call raises inside \<open>run_lsblk_json\<close>, and \<open>find_usb_mount_targets\<close> answers with
  the empty list; \<open>choose_usb_target\<close> then has no target.
\<close>

theorem enumerate_degrades_to_empty:
  assumes "\<not> override_set env"
    and "\<not> lsblk_found env \<or> lsblk_returncode env \<noteq> 0 \<or> lsblk_stdout env = None"
  shows "(\<exists>exc. run_lsblk_json env = Inl exc)
    \<and> find_usb_mount_targets env d ps = []
    \<and> choose_usb_target env = None"
proof -
  from assms(2) have "\<exists>exc. run_lsblk_json env = Inl exc"
    by (cases "lsblk_found env"; cases "lsblk_returncode env = 0") (auto simp: run_lsblk_json_def)
  then obtain exc where "run_lsblk_json env = Inl exc" ..
  with assms(1) show ?thesis
    by (simp add: find_usb_mount_targets_def choose_usb_target_def)
qed

theorem enumerate_degrades_to_empty_witness:
  "\<not> override_set no_lsblk_env \<and> \<not> lsblk_found no_lsblk_env
   \<and> find_usb_mount_targets no_lsblk_env ''slitlamp-recordings'' [''SLITLAMP''] = []
   \<and> choose_usb_target no_lsblk_env = None"
proof -
  have h1: "\<not> override_set no_lsblk_env"
    by (simp add: override_set_def no_lsblk_env_def lsblk_env_def)
  have h2: "\<not> lsblk_found no_lsblk_env"
    by (simp add: no_lsblk_env_def)
  show ?thesis
    using enumerate_degrades_to_empty [OF h1, of "''slitlamp-recordings''" "[''SLITLAMP'']"] h1 h2
    by simp
qed

section \<open>Properties of the process controller and the recording service\<close>

lemma stop_recording_alive:
  assumes "h < length (procs w)" and "\<not> poll_exited w h"
  shows "\<exists>w'. stop_recording w (Some h) timeout = Some w'
           \<and> calls w' = calls w @ escalation_calls h (now w) timeout (procs w ! h)
           \<and> poll_exited w' h
           \<and> now w \<le> now w'
           \<and> length (procs w') = length (procs w)
           \<and> (\<forall>k. k \<noteq> h \<longrightarrow> procs w' ! k = procs w ! k)"
  using assms
  unfolding stop_recording_def escalation_calls_def send_signal_def wait_timeout_def
    wait_forever_def poll_exited_def exited_def deliver_def log_call_def Let_def
  by (auto split: option.splits simp: min_def max_def)

lemma exited_mono: "exited t p \<Longrightarrow> t \<le> t' \<Longrightarrow> exited t' p"
  by (auto simp: exited_def split: option.splits)

lemma session_inv_iff:
  "session_inv (s, w) \<longleftrightarrow>
     (\<forall>h. proc s = Some h \<longrightarrow> h < length (procs w))
     \<and> (\<forall>k < length (procs w). \<not> poll_exited w k \<longrightarrow> proc s = Some k)"
  by (auto simp: session_inv_def live_handles_def list_all_iff split: option.splits)

lemma start_recording_ok:
  assumes "start_recording env w p f = (Inr h, w1)"
  shows "h = length (procs w) \<and> (\<exists>c. procs w1 = procs w @ [c]) \<and> now w1 = now w"
  using assms
  by (auto simp: start_recording_def log_call_def Let_def split: option.splits sum.splits)

lemma start_recording_fail:
  assumes "start_recording env w p f = (Inl exc, w1)"
  shows "procs w1 = procs w \<and> now w1 = now w"
  using assms
  by (auto simp: start_recording_def log_call_def Let_def split: option.splits sum.splits)

lemma convert_to_mp4_world:
  assumes "convert_to_mp4 env w p d = (r, w1)"
  shows "procs w1 = procs w \<and> now w1 = now w"
  using assms
  by (auto simp: convert_to_mp4_def log_call_def Let_def split: sum.splits if_splits)

lemma pressed_recording:
  "recording sw \<Longrightarrow>
     on_button_pressed env sw = Ok () (say ''Already recording, ignoring press'' (fst sw), snd sw)"
  by (simp add: on_button_pressed_def)

lemma pressed_start_ok:
  assumes "\<not> recording (s, w)"
    and "start_recording (cam env) w (joinpath (output_dir s) (''rec_'' @ timestamp env @ ''.h264''))
           DEFAULT_FPS = (Inr h, w1)"
  shows "on_button_pressed env (s, w) =
           Ok () ((say (''START -> '' @ str_path (joinpath (output_dir s) (''rec_'' @ timestamp env @ ''.h264'')))
                    (s \<lparr> current_h264 := Some (joinpath (output_dir s) (''rec_'' @ timestamp env @ ''.h264'')) \<rparr>))
                  \<lparr> proc := Some h \<rparr>, w1)"
  using assms by (simp add: on_button_pressed_def Let_def)

lemma pressed_start_fail:
  assumes "\<not> recording (s, w)"
    and "start_recording (cam env) w (joinpath (output_dir s) (''rec_'' @ timestamp env @ ''.h264''))
           DEFAULT_FPS = (Inl exc, w1)"
  shows "on_button_pressed env (s, w) =
           Ok () ((say (''ERROR starting recording: '' @ str_exn exc)
                    (say (''START -> '' @ str_path (joinpath (output_dir s) (''rec_'' @ timestamp env @ ''.h264'')))
                      (s \<lparr> current_h264 := Some (joinpath (output_dir s) (''rec_'' @ timestamp env @ ''.h264'')) \<rparr>)))
                  \<lparr> proc := None, current_h264 := None \<rparr>, w1)"
  using assms by (simp add: on_button_pressed_def Let_def)

lemma proc_say [simp]: "proc (say m s) = proc s"
  by (simp add: say_def)

lemma current_say [simp]: "current_h264 (say m s) = current_h264 s"
  by (simp add: say_def)

lemma running_say [simp]: "running (say m s) = running s"
  by (simp add: say_def)

lemma output_dir_say [simp]: "output_dir (say m s) = output_dir s"
  by (simp add: say_def)

lemma status_say [simp]: "status (say m s) = status s @ [m]"
  by (simp add: say_def)

lemma all_exited_inv:
  "(\<forall>k < length (procs w). poll_exited w k) \<Longrightarrow> proc s = None \<Longrightarrow> session_inv (s, w)"
  by (simp add: session_inv_iff)

lemma idle_all_exited:
  "session_inv (s, w) \<Longrightarrow> \<not> recording (s, w) \<Longrightarrow> k < length (procs w) \<Longrightarrow> poll_exited w k"
  by (cases "proc s") (auto simp: session_inv_iff recording_def)

lemma session_invI:
  assumes "\<And>h. proc s = Some h \<Longrightarrow> h < length (procs w)"
    and "\<And>k. k < length (procs w) \<Longrightarrow> \<not> poll_exited w k \<Longrightarrow> proc s = Some k"
  shows "session_inv (s, w)"
  unfolding session_inv_iff using assms by blast

lemma session_inv_say [simp]: "session_inv (say m s, w) = session_inv (s, w)"
  by (simp add: session_inv_def split: option.splits)

lemma recording_say [simp]: "recording (say m s, w) = recording (s, w)"
  by (simp add: recording_def split: option.splits)

lemma pressed_inv:
  assumes "session_inv sw" and "on_button_pressed env sw = Ok u sw1"
  shows "session_inv sw1"
proof (cases "recording sw")
  case True
  from assms(2) have "sw1 = (say ''Already recording, ignoring press'' (fst sw), snd sw)"
    by (simp add: pressed_recording [OF True])
  with assms(1) show ?thesis
    by (cases sw) simp
next
  case False
  obtain s w where sw: "sw = (s, w)" by (cases sw)
  have dead: "\<And>k. k < length (procs w) \<Longrightarrow> poll_exited w k"
    using idle_all_exited assms(1) False unfolding sw by blast
  define h264 where "h264 = joinpath (output_dir s) (''rec_'' @ timestamp env @ ''.h264'')"
  obtain r w1 where st: "start_recording (cam env) w h264 DEFAULT_FPS = (r, w1)"
    by (cases "start_recording (cam env) w h264 DEFAULT_FPS")
  show ?thesis
  proof (cases r)
    case (Inl exc)
    note f = start_recording_fail [OF st [unfolded Inl]]
    have "\<forall>k < length (procs w1). poll_exited w1 k"
      using dead f by (simp add: poll_exited_def)
    moreover have "proc (fst sw1) = None" "snd sw1 = w1"
      using assms(2) pressed_start_fail [OF False [unfolded sw] st [unfolded Inl h264_def]]
      by (auto simp: sw)
    ultimately show ?thesis
      using all_exited_inv [of w1 "fst sw1"] by (cases sw1) simp
  next
    case (Inr h)
    from start_recording_ok [OF st [unfolded Inr]] obtain c
      where h: "h = length (procs w)" and p: "procs w1 = procs w @ [c]" and n: "now w1 = now w"
      by blast
    have sw1: "proc (fst sw1) = Some h" "snd sw1 = w1"
      using assms(2) pressed_start_ok [OF False [unfolded sw] st [unfolded Inr h264_def]]
      by (auto simp: sw)
    have old: "poll_exited w1 k" if "k < length (procs w)" for k
      using dead [OF that] that by (simp add: p n poll_exited_def nth_append)
    have "session_inv (fst sw1, w1)"
    proof (rule session_invI)
      fix h' assume "proc (fst sw1) = Some h'"
      with sw1 show "h' < length (procs w1)" by (simp add: h p)
    next
      fix k assume k: "k < length (procs w1)" "\<not> poll_exited w1 k"
      with old have "\<not> k < length (procs w)" by blast
      with k(1) have "k = h" by (simp add: p h)
      with sw1 show "proc (fst sw1) = Some k" by simp
    qed
    with sw1(2) show ?thesis by (cases sw1) simp
  qed
qed

lemma returns_in_simps [simp]:
  "returns_in P (Ok v st) = P st"
  "returns_in P (Raise exc st) = P st"
  "returns_in P NoReturn = False"
  by (simp_all add: returns_in_def)

lemma returns_in_mono:
  "returns_in P r \<Longrightarrow> (\<And>st. P st \<Longrightarrow> Q st) \<Longrightarrow> returns_in Q r"
  by (cases r) simp_all

lemma released_idle:
  "\<not> recording sw \<Longrightarrow>
     on_button_released env sw = Ok () (say ''Not recording, ignoring release'' (fst sw), snd sw)"
  by (simp add: on_button_released_def)

lemma released_recording:
  assumes rec: "recording (s, w)"
    and stop: "stop_recording w (proc s) default_stop_timeout = Some w1"
  shows "returns_in (\<lambda>sw'. proc (fst sw') = None \<and> procs (snd sw') = procs w1
                        \<and> now (snd sw') = now w1)
           (on_button_released env (s, w))"
proof (cases "current_h264 s")
  case None
  then show ?thesis
    using rec stop by (simp add: on_button_released_def Let_def)
next
  case (Some p)
  show ?thesis
  proof (cases "h264_exists env")
    case False
    then show ?thesis
      using rec stop Some by (simp add: on_button_released_def Let_def)
  next
    case True
    show ?thesis
    proof (cases "with_suffix p ''.mp4''")
      case (Inl exc)
      then show ?thesis
        using rec stop Some True by (simp add: on_button_released_def Let_def)
    next
      case (Inr mp4)
      obtain r w2 where c: "convert_to_mp4 (cam env) w1 p False = (r, w2)"
        by (cases "convert_to_mp4 (cam env) w1 p False")
      from convert_to_mp4_world [OF c] have "procs w2 = procs w1" "now w2 = now w1"
        by simp_all
      then show ?thesis
        using rec stop Some True Inr c
        by (cases r) (simp_all add: on_button_released_def Let_def)
    qed
  qed
qed

lemma recording_handle:
  assumes "recording (s, w)"
  obtains h where "proc s = Some h" "\<not> poll_exited w h"
  using assms by (cases "proc s") (simp_all add: recording_def)

lemma session_inv_handle: "session_inv (s, w) \<Longrightarrow> proc s = Some h \<Longrightarrow> h < length (procs w)"
  unfolding session_inv_iff by blast

lemma session_inv_live:
  "session_inv (s, w) \<Longrightarrow> k < length (procs w) \<Longrightarrow> \<not> poll_exited w k \<Longrightarrow> proc s = Some k"
  unfolding session_inv_iff by blast

lemma released_recording_dead:
  assumes inv: "session_inv (s, w)" and rec: "recording (s, w)"
  shows "returns_in (\<lambda>sw'. proc (fst sw') = None
                        \<and> (\<forall>k < length (procs (snd sw')). poll_exited (snd sw') k))
           (on_button_released env (s, w))"
proof -
  from rec obtain h where h: "proc s = Some h" "\<not> poll_exited w h"
    by (rule recording_handle)
  from session_inv_handle [OF inv h(1)] have hl: "h < length (procs w)" .
  from stop_recording_alive [OF hl h(2), of default_stop_timeout] obtain w1
    where stop: "stop_recording w (Some h) default_stop_timeout = Some w1"
      and ex: "poll_exited w1 h" and t: "now w \<le> now w1"
      and len: "length (procs w1) = length (procs w)"
      and same: "\<And>k. k \<noteq> h \<Longrightarrow> procs w1 ! k = procs w ! k"
    by blast
  have dead: "poll_exited w1 k" if k: "k < length (procs w1)" for k
  proof (cases "k = h")
    case True
    with ex show ?thesis by simp
  next
    case False
    with session_inv_live [OF inv, of k] k h(1) have "poll_exited w k"
      by (auto simp: len)
    then have "exited (now w1) (procs w ! k)"
      unfolding poll_exited_def using t by (rule exited_mono)
    with same [OF False] show ?thesis
      by (simp add: poll_exited_def)
  qed
  have "returns_in (\<lambda>sw'. proc (fst sw') = None \<and> procs (snd sw') = procs w1
                        \<and> now (snd sw') = now w1)
           (on_button_released env (s, w))"
    using released_recording [OF rec, of w1 env] stop h(1) by simp
  then show ?thesis
  proof (rule returns_in_mono)
    fix sw' :: "service \<times> world"
    assume a: "proc (fst sw') = None \<and> procs (snd sw') = procs w1 \<and> now (snd sw') = now w1"
    then have "poll_exited (snd sw') k" if "k < length (procs (snd sw'))" for k
      using dead [of k] that by (simp add: poll_exited_def)
    with a show "proc (fst sw') = None
                   \<and> (\<forall>k < length (procs (snd sw')). poll_exited (snd sw') k)"
      by blast
  qed
qed

lemma released_inv:
  assumes inv: "session_inv sw"
  shows "returns_in session_inv (on_button_released env sw)"
proof (cases "recording sw")
  case False
  with inv show ?thesis
    by (cases sw) (simp add: released_idle)
next
  case True
  obtain s w where sw: "sw = (s, w)" by (cases sw)
  from released_recording_dead [OF inv [unfolded sw] True [unfolded sw], of env]
  show ?thesis
    unfolding sw
  proof (rule returns_in_mono)
    fix sw' :: "service \<times> world"
    assume "proc (fst sw') = None \<and> (\<forall>k < length (procs (snd sw')). poll_exited (snd sw') k)"
    then show "session_inv sw'"
      using all_exited_inv [of "snd sw'" "fst sw'"] by simp
  qed
qed

lemma pressed_returns: "\<exists>sw1. on_button_pressed env sw = Ok () sw1"
  by (auto simp: on_button_pressed_def Let_def split: prod.splits sum.splits)

lemma pressed_inv':
  assumes "session_inv sw"
  shows "returns_in session_inv (on_button_pressed env sw)"
proof -
  obtain sw1 where "on_button_pressed env sw = Ok () sw1"
    using pressed_returns by blast
  with pressed_inv [OF assms, of env "()" sw1] show ?thesis by simp
qed

lemma live_handles_empty: "live_handles w = [] \<longleftrightarrow> (\<forall>k < length (procs w). poll_exited w k)"
  by (auto simp: live_handles_def filter_empty_conv)

lemma distinct_all_same:
  assumes "distinct xs" and "\<And>x. x \<in> set xs \<Longrightarrow> x = a"
  shows "length xs \<le> 1"
proof (cases xs)
  case Nil
  then show ?thesis by simp
next
  case (Cons x ys)
  show ?thesis
  proof (cases ys)
    case Nil
    with Cons show ?thesis by simp
  next
    case (Cons y zs)
    with \<open>xs = x # ys\<close> assms(2) [of x] assms(2) [of y] assms(1) show ?thesis by simp
  qed
qed

lemma session_inv_one_live:
  assumes "session_inv (s, w)"
  shows "length (live_handles w) \<le> 1"
proof (cases "proc s")
  case None
  with assms have "live_handles w = []"
    by (cases "live_handles w") (simp_all add: session_inv_def)
  then show ?thesis by simp
next
  case (Some h)
  have "distinct (live_handles w)"
    by (simp add: live_handles_def)
  moreover have "x = h" if "x \<in> set (live_handles w)" for x
    using assms that Some by (auto simp: session_inv_def list_all_iff)
  ultimately show ?thesis by (rule distinct_all_same)
qed

lemma with_button_returns:
  "returns_in (\<lambda>st. P (snd st)) (with_button b r) = returns_in P r"
  by (cases r) (simp_all add: with_button_def)

lemma poll_inv:
  assumes "session_inv sw"
  shows "returns_in (\<lambda>st. session_inv (snd st))
           (poll (Some (on_button_pressed env)) (Some (on_button_released env)) line (b, sw))"
proof (cases "last_state b")
  case None
  with assms show ?thesis by (simp add: poll_def Let_def)
next
  case (Some previous)
  show ?thesis
  proof (cases "is_pressed b line = previous")
    case True
    with Some assms show ?thesis by (simp add: poll_def Let_def)
  next
    case False
    show ?thesis
    proof (cases "is_pressed b line")
      case True
      with False Some pressed_inv' [OF assms, of env] show ?thesis
        by (simp add: poll_def Let_def with_button_returns)
    next
      case f: False
      with False Some released_inv [OF assms, of env] show ?thesis
        by (simp add: poll_def Let_def with_button_returns)
    qed
  qed
qed

lemma session_inv_sleep:
  assumes "session_inv (s, w)"
  shows "session_inv (s, sleep ms w)"
proof (rule session_invI)
  fix h assume "proc s = Some h"
  with session_inv_handle [OF assms] show "h < length (procs (sleep ms w))"
    by (simp add: sleep_def)
next
  fix k assume k: "k < length (procs (sleep ms w))" "\<not> poll_exited (sleep ms w) k"
  have "\<not> poll_exited w k"
  proof
    assume "poll_exited w k"
    then have "exited (now w + ms) (procs w ! k)"
      unfolding poll_exited_def by (rule exited_mono) simp
    with k(2) show False by (simp add: poll_exited_def sleep_def)
  qed
  with session_inv_live [OF assms, of k] k(1) show "proc s = Some k"
    by (simp add: sleep_def)
qed

lemma session_inv_proc_eq: "proc s' = proc s \<Longrightarrow> session_inv (s', w) = session_inv (s, w)"
  by (simp add: session_inv_def split: option.splits)

lemma session_inv_shutdown: "session_inv (handle_shutdown sig s, w) = session_inv (s, w)"
  by (rule session_inv_proc_eq) (simp add: handle_shutdown_def)

lemma deliver_shutdown_inv:
  "session_inv (s, w) \<Longrightarrow> session_inv (snd (deliver_shutdown env (b, s, w)))"
  by (cases "shutdown_signal env") (simp_all add: deliver_shutdown_def session_inv_shutdown)

lemma run_loop_stopped: "\<not> running (fst (snd st)) \<Longrightarrow> run_loop envs st = Ok () st"
  by (cases envs) simp_all

lemma run_loop_inv:
  "session_inv (snd st) \<Longrightarrow>
     run_loop envs st = NoReturn \<or> returns_in (\<lambda>st'. session_inv (snd st')) (run_loop envs st)"
proof (induction envs arbitrary: st)
  case Nil
  then show ?case by simp
next
  case (Cons env envs)
  obtain b sw where st: "st = (b, sw)" by (cases st)
  show ?case
  proof (cases "running (fst (snd st))")
    case False
    with Cons.prems show ?thesis by (simp add: run_loop_stopped)
  next
    case True
    let ?r = "poll (Some (on_button_pressed env)) (Some (on_button_released env)) (line_level env) st"
    from Cons.prems have p: "returns_in (\<lambda>st. session_inv (snd st)) ?r"
      unfolding st using poll_inv by simp
    show ?thesis
    proof (cases ?r)
      case (Ok u st1)
      obtain b1 s1 w1 where st1: "st1 = (b1, s1, w1)" by (cases st1)
      from p Ok st1 have "session_inv (s1, w1)" by simp
      then have "session_inv (snd (deliver_shutdown env (b1, s1, sleep POLL_INTERVAL w1)))"
        by (intro deliver_shutdown_inv session_inv_sleep)
      from Cons.IH [OF this] True Ok st1 show ?thesis by simp
    next
      case (Raise exc st1)
      with p True show ?thesis by simp
    next
      case NoReturn
      with True show ?thesis by simp
    qed
  qed
qed

lemma deliver_shutdown_stops:
  "shutdown_signal env = Some sig \<Longrightarrow> \<not> running (fst (snd (deliver_shutdown env st)))"
  by (simp add: deliver_shutdown_def handle_shutdown_def)

lemma run_loop_returns:
  "\<exists>env \<in> set envs. shutdown_signal env \<noteq> None \<Longrightarrow> session_inv (snd st) \<Longrightarrow>
     run_loop envs st \<noteq> NoReturn"
proof (induction envs arbitrary: st)
  case Nil
  then show ?case by simp
next
  case (Cons env envs)
  obtain b sw where st: "st = (b, sw)" by (cases st)
  show ?case
  proof (cases "running (fst (snd st))")
    case False
    then show ?thesis by (simp add: run_loop_stopped)
  next
    case True
    let ?r = "poll (Some (on_button_pressed env)) (Some (on_button_released env)) (line_level env) st"
    from Cons.prems(2) have p: "returns_in (\<lambda>st. session_inv (snd st)) ?r"
      unfolding st using poll_inv by simp
    show ?thesis
    proof (cases ?r)
      case (Ok u st1)
      obtain b1 s1 w1 where st1: "st1 = (b1, s1, w1)" by (cases st1)
      let ?st2 = "deliver_shutdown env (b1, s1, sleep POLL_INTERVAL w1)"
      from p Ok st1 have "session_inv (s1, w1)" by simp
      then have inv2: "session_inv (snd ?st2)"
        by (intro deliver_shutdown_inv session_inv_sleep)
      have "run_loop envs ?st2 \<noteq> NoReturn"
      proof (cases "shutdown_signal env")
        case None
        with Cons.prems(1) have "\<exists>env \<in> set envs. shutdown_signal env \<noteq> None" by simp
        from Cons.IH [OF this inv2] show ?thesis .
      next
        case (Some sig)
        from deliver_shutdown_stops [OF Some] show ?thesis
          by (simp add: run_loop_stopped)
      qed
      with True Ok st1 show ?thesis by simp
    next
      case (Raise exc st1)
      with True show ?thesis by simp
    next
      case NoReturn
      with p show ?thesis by simp
    qed
  qed
qed

lemma teardown_dead:
  assumes "session_inv (snd st)"
  shows "returns_in (\<lambda>st'. live_handles (snd (snd st')) = [] \<and> session_inv (snd st'))
           (teardown env st)"
proof -
  obtain b s w where st: "st = (b, s, w)" by (cases st)
  from assms have inv: "session_inv (s, w)" by (simp add: st)
  show ?thesis
  proof (cases "recording (s, w)")
    case False
    with inv have "live_handles w = []"
      unfolding live_handles_empty using idle_all_exited by blast
    with False inv show ?thesis by (simp add: teardown_def st Let_def)
  next
    case True
    let ?r = "on_button_released env (say ''Stopping active recording...'' s, w)"
    have "returns_in (\<lambda>sw'. proc (fst sw') = None
                        \<and> (\<forall>k < length (procs (snd sw')). poll_exited (snd sw') k)) ?r"
      by (rule released_recording_dead) (simp_all add: inv True)
    then have d: "returns_in (\<lambda>sw'. live_handles (snd sw') = [] \<and> session_inv sw') ?r"
    proof (rule returns_in_mono)
      fix sw' :: "service \<times> world"
      assume "proc (fst sw') = None \<and> (\<forall>k < length (procs (snd sw')). poll_exited (snd sw') k)"
      then show "live_handles (snd sw') = [] \<and> session_inv sw'"
        using all_exited_inv [of "snd sw'" "fst sw'"] by (simp add: live_handles_empty)
    qed
    show ?thesis
    proof (cases ?r)
      case (Ok u sw1)
      with d True show ?thesis
        by (cases sw1) (simp add: teardown_def st Let_def)
    next
      case (Raise exc sw1)
      with d True show ?thesis
        by (cases sw1) (simp add: teardown_def st Let_def)
    next
      case NoReturn
      with d show ?thesis by simp
    qed
  qed
qed

lemma check_initial_inv:
  assumes "session_inv sw"
  shows "\<exists>flag b1 sw1. check_initial_state (Some (on_button_pressed env)) line (b, sw) = Ok flag (b1, sw1)
           \<and> session_inv sw1"
proof (cases "is_pressed b line")
  case False
  with assms show ?thesis by (auto simp: check_initial_state_def Let_def)
next
  case True
  obtain sw1 where p: "on_button_pressed env sw = Ok () sw1"
    using pressed_returns by blast
  from pressed_inv [OF assms p] have "session_inv sw1" .
  with True p show ?thesis by (auto simp: check_initial_state_def Let_def)
qed

lemma service_run_dead:
  assumes "session_inv (s, w)"
  shows "service_run startup envs final (b, s, w) = NoReturn
         \<or> returns_in (\<lambda>st'. live_handles (snd (snd st')) = [] \<and> session_inv (snd st'))
              (service_run startup envs final (b, s, w))"
proof -
  let ?s1 = "say (''Output directory: '' @ str_path (output_dir s))
               (say ''Ready. Latching switch: ON=start, OFF=stop+mp4'' s)"
  have "session_inv (?s1, w)" using assms by simp
  from check_initial_inv [OF this, of startup "line_level startup" b]
  obtain flag b2 s2 w2
    where c: "check_initial_state (Some (on_button_pressed startup)) (line_level startup) (b, ?s1, w)
                = Ok flag (b2, s2, w2)"
      and inv2: "session_inv (s2, w2)"
    by auto
  let ?s4 = "(if flag then say ''Button was ON at startup, recording started'' s2 else s2)
               \<lparr> running := True \<rparr>"
  have "session_inv (?s4, w2) = session_inv (s2, w2)"
    by (rule session_inv_proc_eq) simp
  with inv2 have inv4: "session_inv (snd (b2, ?s4, w2))" by simp
  have eq: "service_run startup envs final (b, s, w) =
              (case run_loop envs (b2, ?s4, w2) of
                 NoReturn \<Rightarrow> NoReturn
               | Ok u st5 \<Rightarrow>
                   (case teardown final st5 of
                      Ok u st6 \<Rightarrow> Ok 0 st6
                    | Raise exc st6 \<Rightarrow> Raise exc st6
                    | NoReturn \<Rightarrow> NoReturn)
               | Raise exc st5 \<Rightarrow>
                   (case teardown final st5 of
                      Ok u st6 \<Rightarrow> Raise exc st6
                    | Raise exc2 st6 \<Rightarrow> Raise exc2 st6
                    | NoReturn \<Rightarrow> NoReturn))"
    using c by (simp add: service_run_def Let_def)
  from run_loop_inv [OF inv4, of envs] show ?thesis
  proof
    assume "run_loop envs (b2, ?s4, w2) = NoReturn"
    then show ?thesis by (simp add: eq)
  next
    assume r: "returns_in (\<lambda>st'. session_inv (snd st')) (run_loop envs (b2, ?s4, w2))"
    show ?thesis
    proof (cases "run_loop envs (b2, ?s4, w2)")
      case (Ok u st5)
      with r have "session_inv (snd st5)" by simp
      from teardown_dead [OF this, of final] Ok show ?thesis
        by (cases "teardown final st5") (simp_all add: eq)
    next
      case (Raise exc st5)
      with r have "session_inv (snd st5)" by simp
      from teardown_dead [OF this, of final] Raise show ?thesis
        by (cases "teardown final st5") (simp_all add: eq)
    next
      case NoReturn
      then show ?thesis by (simp add: eq)
    qed
  qed
qed

lemma feed_inv:
  "session_inv sw \<Longrightarrow> returns_in session_inv (feed es sw)"
proof (induction es arbitrary: sw)
  case Nil
  then show ?case by simp
next
  case (Cons x es)
  obtain ms e env where x: "x = (ms, e, env)" by (cases x)
  obtain s w where sw: "sw = (s, w)" by (cases sw)
  from Cons.prems have inv: "session_inv (s, sleep ms w)"
    unfolding sw by (rule session_inv_sleep)
  have d: "returns_in session_inv (dispatch e env (s, sleep ms w))"
    using inv by (cases e) (simp_all add: pressed_inv' released_inv)
  show ?case
  proof (cases "dispatch e env (s, sleep ms w)")
    case (Ok u sw1)
    with d have "session_inv sw1" by simp
    from Cons.IH [OF this] Ok show ?thesis by (simp add: x sw)
  next
    case (Raise exc sw1)
    with d show ?thesis by (simp add: x sw)
  next
    case NoReturn
    with d show ?thesis by simp
  qed
qed

lemma str_fps: "str_nat DEFAULT_FPS = ''25''"
  by (simp add: DEFAULT_FPS_def str_nat.simps digit_char_def)

lemma convert_to_mp4_calls:
  assumes "convert_to_mp4 env w p d = (r, w1)"
  shows "prefix (calls w) (calls w1)"
  using assms
  by (auto simp: convert_to_mp4_def log_call_def Let_def split: sum.splits if_splits)

lemma convert_to_mp4_done:
  assumes "have_ffmpeg env" and "ffmpeg_returncode env = 0" and "with_suffix p ''.mp4'' = Inr mp4"
  shows "convert_to_mp4 env w p False =
           (Inr mp4, w \<lparr> calls := calls w @ finalize_calls (now w) p mp4 \<rparr>)"
  using assms
  by (simp add: convert_to_mp4_def log_call_def Let_def finalize_calls_def str_fps)

lemma released_stops:
  assumes h: "proc s = Some h" and hl: "h < length (procs w)" and live: "\<not> poll_exited w h"
  shows "returns_in (\<lambda>sw'. proc (fst sw') = None \<and> poll_exited (snd sw') h
                        \<and> prefix (calls w @ escalation_calls h (now w) default_stop_timeout (procs w ! h))
                             (calls (snd sw')))
           (on_button_released env (s, w))"
proof -
  from h live have rec: "recording (s, w)" by (simp add: recording_def)
  from stop_recording_alive [OF hl live, of default_stop_timeout] obtain w1
    where stop: "stop_recording w (Some h) default_stop_timeout = Some w1"
      and c: "calls w1 = calls w @ escalation_calls h (now w) default_stop_timeout (procs w ! h)"
      and ex: "poll_exited w1 h"
    by blast
  show ?thesis
  proof (cases "current_h264 s")
    case None
    then show ?thesis
      using rec stop h c ex by (simp add: on_button_released_def Let_def)
  next
    case (Some p)
    show ?thesis
    proof (cases "h264_exists env")
      case False
      then show ?thesis
        using rec stop h c ex Some by (simp add: on_button_released_def Let_def)
    next
      case True
      show ?thesis
      proof (cases "with_suffix p ''.mp4''")
        case (Inl exc)
        then show ?thesis
          using rec stop h c ex Some True by (simp add: on_button_released_def Let_def)
      next
        case (Inr mp4)
        obtain r w2 where cv: "convert_to_mp4 (cam env) w1 p False = (r, w2)"
          by (cases "convert_to_mp4 (cam env) w1 p False")
        from convert_to_mp4_world [OF cv] ex have ex2: "poll_exited w2 h"
          by (simp add: poll_exited_def)
        from convert_to_mp4_calls [OF cv] c
        have pc: "prefix (calls w @ escalation_calls h (now w) default_stop_timeout (procs w ! h))
                    (calls w2)"
          by simp
        show ?thesis
          using rec stop h Some True Inr cv ex2 pc
          by (cases r) (simp_all add: on_button_released_def Let_def)
      qed
    qed
  qed
qed

lemma released_stops_and_converts:
  assumes h: "proc s = Some h" and hl: "h < length (procs w)" and live: "\<not> poll_exited w h"
    and p: "current_h264 s = Some p" and ex: "h264_exists env"
    and sfx: "with_suffix p ''.mp4'' = Inr mp4"
    and ff: "have_ffmpeg (cam env)" "ffmpeg_returncode (cam env) = 0"
  shows "\<exists>s' w'. on_button_released env (s, w) = Ok () (s', w')
           \<and> proc s' = None \<and> current_h264 s' = None
           \<and> output_dir s' = output_dir s \<and> running s' = running s
           \<and> status s' = status s @ [''STOP...'', ''MP4 -> '' @ str_path mp4]
           \<and> calls w' = calls w @ escalation_calls h (now w) default_stop_timeout (procs w ! h)
                          @ finalize_calls (now w') p mp4
           \<and> poll_exited w' h \<and> now w \<le> now w'
           \<and> length (procs w') = length (procs w)
           \<and> (\<forall>k. k \<noteq> h \<longrightarrow> procs w' ! k = procs w ! k)"
proof -
  from h live have rec: "recording (s, w)" by (simp add: recording_def)
  from stop_recording_alive [OF hl live, of default_stop_timeout] obtain w1
    where stop: "stop_recording w (Some h) default_stop_timeout = Some w1"
      and c: "calls w1 = calls w @ escalation_calls h (now w) default_stop_timeout (procs w ! h)"
      and e1: "poll_exited w1 h" and t: "now w \<le> now w1"
      and len: "length (procs w1) = length (procs w)"
      and same: "\<forall>k. k \<noteq> h \<longrightarrow> procs w1 ! k = procs w ! k"
    by blast
  let ?w' = "w1 \<lparr> calls := calls w1 @ finalize_calls (now w1) p mp4 \<rparr>"
  let ?s' = "(say (''MP4 -> '' @ str_path mp4) ((say ''STOP...'' s) \<lparr> proc := None \<rparr>))
               \<lparr> current_h264 := None \<rparr>"
  have cv: "convert_to_mp4 (cam env) w1 p False = (Inr mp4, ?w')"
    by (rule convert_to_mp4_done [OF ff sfx])
  have eq: "on_button_released env (s, w) = Ok () (?s', ?w')"
    using rec stop h p ex sfx cv by (simp add: on_button_released_def Let_def)
  have "proc ?s' = None" "current_h264 ?s' = None" "output_dir ?s' = output_dir s"
    "running ?s' = running s"
    "status ?s' = status s @ [''STOP...'', ''MP4 -> '' @ str_path mp4]"
    by (simp_all add: say_def)
  moreover have "calls ?w' = calls w @ escalation_calls h (now w) default_stop_timeout (procs w ! h)
                          @ finalize_calls (now ?w') p mp4"
    by (simp add: c)
  moreover have "poll_exited ?w' h" using e1 by (simp add: poll_exited_def)
  moreover have "now w \<le> now ?w'" using t by simp
  moreover have "length (procs ?w') = length (procs w)" using len by simp
  moreover have "\<forall>k. k \<noteq> h \<longrightarrow> procs ?w' ! k = procs w ! k" using same by simp
  ultimately show ?thesis using eq by blast
qed

lemma teardown_stops:
  assumes h: "proc s = Some h" and hl: "h < length (procs w)" and live: "\<not> poll_exited w h"
  shows "returns_in (\<lambda>st'. proc (fst (snd st')) = None \<and> poll_exited (snd (snd st')) h
                        \<and> prefix (calls w @ escalation_calls h (now w) default_stop_timeout (procs w ! h))
                             (calls (snd (snd st'))))
           (teardown env (b, s, w))"
proof -
  from h live have rec: "recording (s, w)" by (simp add: recording_def)
  let ?r = "on_button_released env (say ''Stopping active recording...'' s, w)"
  have d: "returns_in (\<lambda>sw'. proc (fst sw') = None \<and> poll_exited (snd sw') h
                        \<and> prefix (calls w @ escalation_calls h (now w) default_stop_timeout (procs w ! h))
                             (calls (snd sw'))) ?r"
    by (rule released_stops) (simp_all add: h hl live)
  show ?thesis
  proof (cases ?r)
    case (Ok u sw1)
    with d rec show ?thesis
      by (cases sw1) (simp add: teardown_def Let_def)
  next
    case (Raise exc sw1)
    with d rec show ?thesis
      by (cases sw1) (simp add: teardown_def Let_def)
  next
    case NoReturn
    with d show ?thesis by simp
  qed
qed

lemma teardown_stops_and_converts:
  assumes h: "proc s = Some h" and hl: "h < length (procs w)" and live: "\<not> poll_exited w h"
    and p: "current_h264 s = Some p" and ex: "h264_exists env"
    and sfx: "with_suffix p ''.mp4'' = Inr mp4"
    and ff: "have_ffmpeg (cam env)" "ffmpeg_returncode (cam env) = 0"
  shows "\<exists>s' w'. teardown env (b, s, w) = Ok () (close_button b, s', w')
           \<and> proc s' = None \<and> current_h264 s' = None
           \<and> output_dir s' = output_dir s \<and> running s' = running s
           \<and> status s' = status s @ [''Stopping active recording...'', ''STOP...'',
                                      ''MP4 -> '' @ str_path mp4, ''Service stopped.'']
           \<and> calls w' = calls w @ escalation_calls h (now w) default_stop_timeout (procs w ! h)
                          @ finalize_calls (now w') p mp4
           \<and> poll_exited w' h \<and> now w \<le> now w'
           \<and> length (procs w') = length (procs w)
           \<and> (\<forall>k. k \<noteq> h \<longrightarrow> procs w' ! k = procs w ! k)"
proof -
  from h live have rec: "recording (s, w)" by (simp add: recording_def)
  let ?s0 = "say ''Stopping active recording...'' s"
  have "\<exists>s' w'. on_button_released env (?s0, w) = Ok () (s', w')
           \<and> proc s' = None \<and> current_h264 s' = None
           \<and> output_dir s' = output_dir ?s0 \<and> running s' = running ?s0
           \<and> status s' = status ?s0 @ [''STOP...'', ''MP4 -> '' @ str_path mp4]
           \<and> calls w' = calls w @ escalation_calls h (now w) default_stop_timeout (procs w ! h)
                          @ finalize_calls (now w') p mp4
           \<and> poll_exited w' h \<and> now w \<le> now w'
           \<and> length (procs w') = length (procs w)
           \<and> (\<forall>k. k \<noteq> h \<longrightarrow> procs w' ! k = procs w ! k)"
    by (rule released_stops_and_converts [OF _ hl live _ ex sfx ff]) (simp_all add: h p)
  then obtain s1 w1 where r: "on_button_released env (?s0, w) = Ok () (s1, w1)"
    and f: "proc s1 = None" "current_h264 s1 = None" "output_dir s1 = output_dir ?s0"
      "running s1 = running ?s0"
      "status s1 = status ?s0 @ [''STOP...'', ''MP4 -> '' @ str_path mp4]"
    and w: "calls w1 = calls w @ escalation_calls h (now w) default_stop_timeout (procs w ! h)
                          @ finalize_calls (now w1) p mp4"
      "poll_exited w1 h" "now w \<le> now w1" "length (procs w1) = length (procs w)"
      "\<forall>k. k \<noteq> h \<longrightarrow> procs w1 ! k = procs w ! k"
    by blast
  have eq: "teardown env (b, s, w) = Ok () (close_button b, say ''Service stopped.'' s1, w1)"
    using rec r by (simp add: teardown_def Let_def)
  have "status (say ''Service stopped.'' s1) =
          status s @ [''Stopping active recording...'', ''STOP...'',
                      ''MP4 -> '' @ str_path mp4, ''Service stopped.'']"
    using f(5) by simp
  moreover have "proc (say ''Service stopped.'' s1) = None"
    "current_h264 (say ''Service stopped.'' s1) = None"
    "output_dir (say ''Service stopped.'' s1) = output_dir s"
    "running (say ''Service stopped.'' s1) = running s"
    using f by simp_all
  ultimately show ?thesis using eq w by blast
qed

lemma fresh_inv: "proc s = None \<Longrightarrow> procs w = [] \<Longrightarrow> session_inv (s, w)"
  by (simp add: session_inv_def live_handles_def)

lemma dead_not_recording:
  assumes "session_inv (s, w)" and "live_handles w = []"
  shows "\<not> recording (s, w)"
proof
  assume "recording (s, w)"
  then obtain h where h: "proc s = Some h" "\<not> poll_exited w h"
    by (rule recording_handle)
  from session_inv_handle [OF assms(1) h(1)] assms(2) h(2) show False
    by (simp add: live_handles_empty)
qed

lemma service_run_returns:
  assumes inv: "session_inv (s, w)" and sig: "\<exists>env \<in> set envs. shutdown_signal env \<noteq> None"
  shows "service_run startup envs final (b, s, w) \<noteq> NoReturn"
proof -
  let ?s1 = "say (''Output directory: '' @ str_path (output_dir s))
               (say ''Ready. Latching switch: ON=start, OFF=stop+mp4'' s)"
  have "session_inv (?s1, w)" using inv by simp
  from check_initial_inv [OF this, of startup "line_level startup" b]
  obtain flag b2 s2 w2
    where c: "check_initial_state (Some (on_button_pressed startup)) (line_level startup) (b, ?s1, w)
                = Ok flag (b2, s2, w2)"
      and inv2: "session_inv (s2, w2)"
    by auto
  let ?s4 = "(if flag then say ''Button was ON at startup, recording started'' s2 else s2)
               \<lparr> running := True \<rparr>"
  have "session_inv (?s4, w2) = session_inv (s2, w2)"
    by (rule session_inv_proc_eq) simp
  with inv2 have inv4: "session_inv (snd (b2, ?s4, w2))" by simp
  have eq: "service_run startup envs final (b, s, w) =
              (case run_loop envs (b2, ?s4, w2) of
                 NoReturn \<Rightarrow> NoReturn
               | Ok u st5 \<Rightarrow>
                   (case teardown final st5 of
                      Ok u st6 \<Rightarrow> Ok 0 st6
                    | Raise exc st6 \<Rightarrow> Raise exc st6
                    | NoReturn \<Rightarrow> NoReturn)
               | Raise exc st5 \<Rightarrow>
                   (case teardown final st5 of
                      Ok u st6 \<Rightarrow> Raise exc st6
                    | Raise exc2 st6 \<Rightarrow> Raise exc2 st6
                    | NoReturn \<Rightarrow> NoReturn))"
    using c by (simp add: service_run_def Let_def)
  from run_loop_returns [OF sig inv4] have nr: "run_loop envs (b2, ?s4, w2) \<noteq> NoReturn" .
  from run_loop_inv [OF inv4, of envs] nr
  have r: "returns_in (\<lambda>st'. session_inv (snd st')) (run_loop envs (b2, ?s4, w2))" by blast
  show ?thesis
  proof (cases "run_loop envs (b2, ?s4, w2)")
    case (Ok u st5)
    with r have "session_inv (snd st5)" by simp
    from teardown_dead [OF this, of final] Ok show ?thesis
      by (cases "teardown final st5") (simp_all add: eq)
  next
    case (Raise exc st5)
    with r have "session_inv (snd st5)" by simp
    from teardown_dead [OF this, of final] Raise show ?thesis
      by (cases "teardown final st5") (simp_all add: eq)
  next
    case NoReturn
    with nr show ?thesis by simp
  qed
qed

lemma run_loop_signalled_tick:
  assumes "running (fst (snd st))" and "shutdown_signal env = Some sig"
    and "poll (Some (on_button_pressed env)) (Some (on_button_released env)) (line_level env) st
           = Ok u (b1, s1, w1)"
  shows "run_loop (env # envs) st = Ok () (b1, handle_shutdown sig s1, sleep POLL_INTERVAL w1)"
proof -
  have "\<not> running (fst (snd (b1, handle_shutdown sig s1, sleep POLL_INTERVAL w1)))"
    by (simp add: handle_shutdown_def)
  from run_loop_stopped [OF this] assms show ?thesis
    by (simp add: deliver_shutdown_def)
qed

text \<open>
  Claim C3. \<open>stop_recording\<close> does nothing for no handle and for a process that has
  exited. For a live process it always returns, the process has exited when it returns,
  no other process is touched, and the calls it makes are those of the three tiers: the
  interrupt and a wait of at most \<open>timeout\<close>; the terminate signal at \<open>timeout\<close> and
  a second wait, only when the process has not exited by then; the kill at twice the
  \<open>timeout\<close> and a wait without limit, only when it still has not exited.
\<close>

theorem stop_recording_escalates:
  assumes "h < length (procs w)"
  shows "stop_recording w None timeout = Some w
    \<and> (poll_exited w h \<longrightarrow> stop_recording w (Some h) timeout = Some w)
    \<and> (\<not> poll_exited w h \<longrightarrow>
         (\<exists>w'. stop_recording w (Some h) timeout = Some w'
            \<and> calls w' = calls w @ escalation_calls h (now w) timeout (procs w ! h)
            \<and> poll_exited w' h
            \<and> now w \<le> now w'
            \<and> length (procs w') = length (procs w)
            \<and> (\<forall>k. k \<noteq> h \<longrightarrow> procs w' ! k = procs w ! k)))"
  using stop_recording_alive [OF assms, of timeout]
  by (simp add: stop_recording_def)

theorem stop_recording_escalates_witness:
  "0 < length (procs stubborn_world) \<and> \<not> poll_exited stubborn_world 0
   \<and> (\<exists>w'. stop_recording stubborn_world (Some 0) 5000 = Some w'
         \<and> calls w' =
             [(0, SendSignal 0 SIGINT), (0, Wait 0 (Some 5000)),
              (5000, SendSignal 0 SIGTERM), (5000, Wait 0 (Some 5000)),
              (10000, SendSignal 0 SIGKILL), (10000, Wait 0 None)]
         \<and> poll_exited w' 0)"
proof -
  have h: "0 < length (procs stubborn_world)"
    by (simp add: stubborn_world_def)
  have a: "\<not> poll_exited stubborn_world 0"
    by (simp add: stubborn_world_def stubborn_child_def poll_exited_def exited_def)
  have e: "escalation_calls 0 (now stubborn_world) 5000 (procs stubborn_world ! 0) =
             [(0, SendSignal 0 SIGINT), (0, Wait 0 (Some 5000)),
              (5000, SendSignal 0 SIGTERM), (5000, Wait 0 (Some 5000)),
              (10000, SendSignal 0 SIGKILL), (10000, Wait 0 None)]"
    by (simp add: escalation_calls_def stubborn_world_def stubborn_child_def deliver_def
          exited_def Let_def)
  have c0: "calls stubborn_world = []"
    by (simp add: stubborn_world_def)
  from stop_recording_escalates [OF h, of 5000] a obtain w'
    where w': "stop_recording stubborn_world (Some 0) 5000 = Some w'"
      "calls w' = calls stubborn_world @
         escalation_calls 0 (now stubborn_world) 5000 (procs stubborn_world ! 0)"
      "poll_exited w' 0"
    by blast
  from w'(2) have "calls w' =
             [(0, SendSignal 0 SIGINT), (0, Wait 0 (Some 5000)),
              (5000, SendSignal 0 SIGTERM), (5000, Wait 0 (Some 5000)),
              (10000, SendSignal 0 SIGKILL), (10000, Wait 0 None)]"
    by (simp only: e c0 append_Nil)
  with w'(1,3) h a show ?thesis by blast
qed

text \<open>
  Claim C2. From a fresh service, whatever edges are fed to it, however much time passes
  between them and whatever the surroundings answer, the handlers return and at most one
  capture process is live afterwards, namely the one whose handle the service holds. A
  press that arrives while the process of the session is live changes nothing but the
  status log, which gets the message that the press is ignored; no process is started.
  The same bound holds for the polling loop of the service whenever it ends.
\<close>

theorem at_most_one_live_session:
  assumes "proc s = None" and "procs w = []"
  shows "returns_in (\<lambda>sw'. length (live_handles (snd sw')) \<le> 1
                        \<and> list_all (\<lambda>h. proc (fst sw') = Some h) (live_handles (snd sw')))
           (feed es (s, w))
    \<and> (recording sw0 \<longrightarrow>
         on_button_pressed env sw0 =
           Ok () (say ''Already recording, ignoring press'' (fst sw0), snd sw0))
    \<and> (run_loop envs (b, s \<lparr> running := True \<rparr>, w) \<noteq> NoReturn \<longrightarrow>
         returns_in (\<lambda>st'. length (live_handles (snd (snd st'))) \<le> 1)
           (run_loop envs (b, s \<lparr> running := True \<rparr>, w)))"
proof -
  from assms have inv: "session_inv (s, w)" by (rule fresh_inv)
  have "session_inv (s \<lparr> running := True \<rparr>, w) = session_inv (s, w)"
    by (rule session_inv_proc_eq) simp
  with inv have "session_inv (snd (b, s \<lparr> running := True \<rparr>, w))" by simp
  from run_loop_inv [OF this, of envs]
  have loop: "returns_in (\<lambda>st'. length (live_handles (snd (snd st'))) \<le> 1)
           (run_loop envs (b, s \<lparr> running := True \<rparr>, w))"
    if "run_loop envs (b, s \<lparr> running := True \<rparr>, w) \<noteq> NoReturn"
  proof -
    from \<open>run_loop envs (b, s \<lparr> running := True \<rparr>, w) = NoReturn
            \<or> returns_in (\<lambda>st'. session_inv (snd st')) (run_loop envs (b, s \<lparr> running := True \<rparr>, w))\<close>
      that
    have "returns_in (\<lambda>st'. session_inv (snd st')) (run_loop envs (b, s \<lparr> running := True \<rparr>, w))"
      by blast
    then show ?thesis
    proof (rule returns_in_mono)
      fix st' :: sys
      assume "session_inv (snd st')"
      then have "session_inv (fst (snd st'), snd (snd st'))" by simp
      then show "length (live_handles (snd (snd st'))) \<le> 1" by (rule session_inv_one_live)
    qed
  qed
  from inv have "returns_in session_inv (feed es (s, w))" by (rule feed_inv)
  then have "returns_in (\<lambda>sw'. length (live_handles (snd sw')) \<le> 1
                        \<and> list_all (\<lambda>h. proc (fst sw') = Some h) (live_handles (snd sw')))
               (feed es (s, w))"
  proof (rule returns_in_mono)
    fix sw' :: "service \<times> world"
    assume i: "session_inv sw'"
    then have "session_inv (fst sw', snd sw')" by simp
    from session_inv_one_live [OF this] i
    show "length (live_handles (snd sw')) \<le> 1
            \<and> list_all (\<lambda>h. proc (fst sw') = Some h) (live_handles (snd sw'))"
      by (simp add: session_inv_def)
  qed
  with loop show ?thesis
    by (simp add: pressed_recording)
qed

lemma two_presses_one_process:
  "(case feed [(0, Pressed, a_tick True None), (50, Pressed, a_tick True None)]
          (fresh_service, fresh_world) of
      Ok u sw \<Rightarrow> (length (procs (snd sw)), live_handles (snd sw), proc (fst sw), status (fst sw))
    | _ \<Rightarrow> (0, [], None, [])) =
   (1, [0], Some 0,
    [''START -> /media/usb/slitlamp-recordings/slitlamp_recordings/rec_20260101_120000.h264'',
     ''Already recording, ignoring press''])"
  by code_simp

theorem at_most_one_live_session_witness:
  "proc fresh_service = None \<and> procs fresh_world = []
   \<and> returns_in (\<lambda>sw'. length (live_handles (snd sw')) \<le> 1
                        \<and> list_all (\<lambda>h. proc (fst sw') = Some h) (live_handles (snd sw')))
        (feed [(0, Pressed, a_tick True None), (50, Pressed, a_tick True None)]
           (fresh_service, fresh_world))
   \<and> (case feed [(0, Pressed, a_tick True None), (50, Pressed, a_tick True None)]
          (fresh_service, fresh_world) of
      Ok u sw \<Rightarrow> (length (procs (snd sw)), live_handles (snd sw), proc (fst sw), status (fst sw))
    | _ \<Rightarrow> (0, [], None, [])) =
   (1, [0], Some 0,
    [''START -> /media/usb/slitlamp-recordings/slitlamp_recordings/rec_20260101_120000.h264'',
     ''Already recording, ignoring press''])
   \<and> recording (busy_service, busy_world)
   \<and> on_button_pressed (a_tick True None) (busy_service, busy_world) =
        Ok () (say ''Already recording, ignoring press'' busy_service, busy_world)"
proof -
  have h1: "proc fresh_service = None" by (simp add: fresh_service_def)
  have h2: "procs fresh_world = []" by (simp add: fresh_world_def)
  have r: "recording (busy_service, busy_world)"
    by (simp add: recording_def busy_service_def busy_world_def steady_child_def
          poll_exited_def exited_def)
  note t = at_most_one_live_session [OF h1 h2,
        where es = "[(0, Pressed, a_tick True None), (50, Pressed, a_tick True None)]"
          and ?sw0.0 = "(busy_service, busy_world)" and env = "a_tick True None"
          and envs = "[]" and b = fresh_button]
  have "fst (busy_service, busy_world) = busy_service" "snd (busy_service, busy_world) = busy_world"
    by simp_all
  with t h1 h2 r two_presses_one_process show ?thesis
    by metis
qed

lemma service_run_stops_and_converts:
  assumes inv: "session_inv (s, w)"
    and c: "check_initial_state (Some (on_button_pressed startup)) (line_level startup)
              (b, say (''Output directory: '' @ str_path (output_dir s))
                    (say ''Ready. Latching switch: ON=start, OFF=stop+mp4'' s), w)
            = Ok was_on (b2, s2, w2)"
    and l: "run_loop envs
              (b2, (if was_on then say ''Button was ON at startup, recording started'' s2 else s2)
                     \<lparr> running := True \<rparr>, w2)
            = Ok u (b5, s5, w5)"
    and h: "proc s5 = Some h" and live: "\<not> poll_exited w5 h"
    and p: "current_h264 s5 = Some p" and ex: "h264_exists final"
    and sfx: "with_suffix p ''.mp4'' = Inr mp4"
    and ff: "have_ffmpeg (cam final)" "ffmpeg_returncode (cam final) = 0"
  shows "\<exists>s' w'. service_run startup envs final (b, s, w) = Ok 0 (close_button b5, s', w')
           \<and> proc s' = None \<and> current_h264 s' = None
           \<and> status s' = status s5 @ [''Stopping active recording...'', ''STOP...'',
                                       ''MP4 -> '' @ str_path mp4, ''Service stopped.'']
           \<and> calls w' = calls w5 @ escalation_calls h (now w5) default_stop_timeout (procs w5 ! h)
                          @ finalize_calls (now w') p mp4
           \<and> live_handles w' = []"
proof -
  let ?s1 = "say (''Output directory: '' @ str_path (output_dir s))
               (say ''Ready. Latching switch: ON=start, OFF=stop+mp4'' s)"
  let ?s4 = "(if was_on then say ''Button was ON at startup, recording started'' s2 else s2)
               \<lparr> running := True \<rparr>"
  have "session_inv (?s1, w)" using inv by simp
  from check_initial_inv [OF this, of startup "line_level startup" b] c
  have inv2: "session_inv (s2, w2)" by auto
  have "session_inv (?s4, w2) = session_inv (s2, w2)"
    by (rule session_inv_proc_eq) simp
  with inv2 have inv4: "session_inv (snd (b2, ?s4, w2))" by simp
  from run_loop_inv [OF inv4, of envs] l have inv5: "session_inv (s5, w5)" by simp
  from session_inv_handle [OF inv5 h] have hl: "h < length (procs w5)" .
  from teardown_stops_and_converts [OF h hl live p ex sfx ff, of b5] obtain s' w'
    where t: "teardown final (b5, s5, w5) = Ok () (close_button b5, s', w')"
      and f: "proc s' = None" "current_h264 s' = None"
        "status s' = status s5 @ [''Stopping active recording...'', ''STOP...'',
                                   ''MP4 -> '' @ str_path mp4, ''Service stopped.'']"
        "calls w' = calls w5 @ escalation_calls h (now w5) default_stop_timeout (procs w5 ! h)
                      @ finalize_calls (now w') p mp4"
    by blast
  from inv5 have "session_inv (snd (b5, s5, w5))" by simp
  from teardown_dead [OF this, of final] t have dead: "live_handles w' = []" by simp
  have "service_run startup envs final (b, s, w) = Ok 0 (close_button b5, s', w')"
    using c l t by (simp add: service_run_def Let_def)
  with f dead show ?thesis by blast
qed

text \<open>
  Claim C7. The signal handler clears the flag \<open>running\<close> and reports; it leaves the
  session, the button and the processes alone. The iteration during which the signal
  arrives completes its poll, and the loop ends before another one. When \<open>run\<close> returns
  or raises, no capture process is live and the service holds no live handle; and it does
  return or raise once a signal has arrived during an iteration of the loop. The teardown
  of \<open>run\<close> stops a session whose process is live: it makes the calls of the three tiers
  on the handle and leaves the process exited and the handle cleared, whatever the
  surroundings answer; when the recorded file exists and the conversion tool is there and
  succeeds, these calls are followed by those of the conversion and the sync, the stored
  path is cleared and the status log gets the messages of the stop. So does \<open>run\<close> as
  a whole, in whatever state with a live session its loop ends: it returns 0 after the
  stop and the conversion, with no capture process live.
\<close>

theorem shutdown_leaves_no_capture_process:
  assumes "proc s = None" and "procs w = []"
  shows "(proc (handle_shutdown sig s0) = proc s0
          \<and> current_h264 (handle_shutdown sig s0) = current_h264 s0
          \<and> output_dir (handle_shutdown sig s0) = output_dir s0
          \<and> \<not> running (handle_shutdown sig s0))
    \<and> (fst (deliver_shutdown env st) = fst st
          \<and> snd (snd (deliver_shutdown env st)) = snd (snd st))
    \<and> (running (fst (snd st)) \<and> shutdown_signal env = Some sig
          \<and> poll (Some (on_button_pressed env)) (Some (on_button_released env)) (line_level env) st
                = Ok u (b1, s1, w1) \<longrightarrow>
        run_loop (env # envs') st = Ok () (b1, handle_shutdown sig s1, sleep POLL_INTERVAL w1))
    \<and> (service_run startup envs final (b, s, w) \<noteq> NoReturn \<longrightarrow>
        returns_in (\<lambda>st'. live_handles (snd (snd st')) = [] \<and> \<not> recording (snd st'))
          (service_run startup envs final (b, s, w)))
    \<and> ((\<exists>env \<in> set envs. shutdown_signal env \<noteq> None) \<longrightarrow>
        service_run startup envs final (b, s, w) \<noteq> NoReturn)
    \<and> (proc s3 = Some k \<and> k < length (procs w3) \<and> \<not> poll_exited w3 k \<longrightarrow>
        returns_in (\<lambda>st'. proc (fst (snd st')) = None \<and> poll_exited (snd (snd st')) k
                      \<and> prefix (calls w3 @ escalation_calls k (now w3) default_stop_timeout (procs w3 ! k))
                           (calls (snd (snd st'))))
          (teardown final (b3, s3, w3)))
    \<and> (proc s3 = Some k \<and> k < length (procs w3) \<and> \<not> poll_exited w3 k
          \<and> current_h264 s3 = Some q \<and> h264_exists final \<and> with_suffix q ''.mp4'' = Inr q4
          \<and> have_ffmpeg (cam final) \<and> ffmpeg_returncode (cam final) = 0 \<longrightarrow>
        (\<exists>s' w'. teardown final (b3, s3, w3) = Ok () (close_button b3, s', w')
           \<and> proc s' = None \<and> current_h264 s' = None
           \<and> status s' = status s3 @ [''Stopping active recording...'', ''STOP...'',
                                       ''MP4 -> '' @ str_path q4, ''Service stopped.'']
           \<and> calls w' = calls w3 @ escalation_calls k (now w3) default_stop_timeout (procs w3 ! k)
                          @ finalize_calls (now w') q q4
           \<and> poll_exited w' k))
    \<and> (check_initial_state (Some (on_button_pressed startup)) (line_level startup)
           (b, say (''Output directory: '' @ str_path (output_dir s))
                 (say ''Ready. Latching switch: ON=start, OFF=stop+mp4'' s), w)
          = Ok was_on (b2, s2, w2)
        \<and> run_loop envs
             (b2, (if was_on then say ''Button was ON at startup, recording started'' s2 else s2)
                    \<lparr> running := True \<rparr>, w2)
          = Ok u5 (b5, s5, w5)
        \<and> proc s5 = Some h \<and> \<not> poll_exited w5 h
        \<and> current_h264 s5 = Some p \<and> h264_exists final \<and> with_suffix p ''.mp4'' = Inr mp4
        \<and> have_ffmpeg (cam final) \<and> ffmpeg_returncode (cam final) = 0 \<longrightarrow>
        (\<exists>s' w'. service_run startup envs final (b, s, w) = Ok 0 (close_button b5, s', w')
           \<and> proc s' = None \<and> current_h264 s' = None
           \<and> status s' = status s5 @ [''Stopping active recording...'', ''STOP...'',
                                       ''MP4 -> '' @ str_path mp4, ''Service stopped.'']
           \<and> calls w' = calls w5 @ escalation_calls h (now w5) default_stop_timeout (procs w5 ! h)
                          @ finalize_calls (now w') p mp4
           \<and> live_handles w' = []))"
proof -
  from assms have inv: "session_inv (s, w)" by (rule fresh_inv)
  have a: "proc (handle_shutdown sig s0) = proc s0
          \<and> current_h264 (handle_shutdown sig s0) = current_h264 s0
          \<and> output_dir (handle_shutdown sig s0) = output_dir s0
          \<and> \<not> running (handle_shutdown sig s0)"
    by (simp add: handle_shutdown_def)
  have b: "fst (deliver_shutdown env st) = fst st
          \<and> snd (snd (deliver_shutdown env st)) = snd (snd st)"
    by (cases "shutdown_signal env") (simp_all add: deliver_shutdown_def)
  have c: "running (fst (snd st)) \<and> shutdown_signal env = Some sig
          \<and> poll (Some (on_button_pressed env)) (Some (on_button_released env)) (line_level env) st
                = Ok u (b1, s1, w1) \<longrightarrow>
        run_loop (env # envs') st = Ok () (b1, handle_shutdown sig s1, sleep POLL_INTERVAL w1)"
    using run_loop_signalled_tick by blast
  have d: "returns_in (\<lambda>st'. live_handles (snd (snd st')) = [] \<and> \<not> recording (snd st'))
             (service_run startup envs final (b, s, w))"
    if "service_run startup envs final (b, s, w) \<noteq> NoReturn"
  proof -
    from service_run_dead [OF inv, of startup envs final b] that
    have "returns_in (\<lambda>st'. live_handles (snd (snd st')) = [] \<and> session_inv (snd st'))
            (service_run startup envs final (b, s, w))"
      by blast
    then show ?thesis
    proof (rule returns_in_mono)
      fix st' :: sys
      assume "live_handles (snd (snd st')) = [] \<and> session_inv (snd st')"
      then show "live_handles (snd (snd st')) = [] \<and> \<not> recording (snd st')"
        using dead_not_recording [of "fst (snd st')" "snd (snd st')"] by simp
    qed
  qed
  have e: "(\<exists>env \<in> set envs. shutdown_signal env \<noteq> None) \<longrightarrow>
        service_run startup envs final (b, s, w) \<noteq> NoReturn"
    using service_run_returns [OF inv] by blast
  have f: "proc s3 = Some k \<and> k < length (procs w3) \<and> \<not> poll_exited w3 k \<longrightarrow>
        returns_in (\<lambda>st'. proc (fst (snd st')) = None \<and> poll_exited (snd (snd st')) k
                      \<and> prefix (calls w3 @ escalation_calls k (now w3) default_stop_timeout (procs w3 ! k))
                           (calls (snd (snd st'))))
          (teardown final (b3, s3, w3))"
    using teardown_stops by blast
  have g: "proc s3 = Some k \<and> k < length (procs w3) \<and> \<not> poll_exited w3 k
          \<and> current_h264 s3 = Some q \<and> h264_exists final \<and> with_suffix q ''.mp4'' = Inr q4
          \<and> have_ffmpeg (cam final) \<and> ffmpeg_returncode (cam final) = 0 \<longrightarrow>
        (\<exists>s' w'. teardown final (b3, s3, w3) = Ok () (close_button b3, s', w')
           \<and> proc s' = None \<and> current_h264 s' = None
           \<and> status s' = status s3 @ [''Stopping active recording...'', ''STOP...'',
                                       ''MP4 -> '' @ str_path q4, ''Service stopped.'']
           \<and> calls w' = calls w3 @ escalation_calls k (now w3) default_stop_timeout (procs w3 ! k)
                          @ finalize_calls (now w') q q4
           \<and> poll_exited w' k)"
  proof
    assume x: "proc s3 = Some k \<and> k < length (procs w3) \<and> \<not> poll_exited w3 k
          \<and> current_h264 s3 = Some q \<and> h264_exists final \<and> with_suffix q ''.mp4'' = Inr q4
          \<and> have_ffmpeg (cam final) \<and> ffmpeg_returncode (cam final) = 0"
    then have "proc s3 = Some k" "k < length (procs w3)" "\<not> poll_exited w3 k"
      "current_h264 s3 = Some q" "h264_exists final" "with_suffix q ''.mp4'' = Inr q4"
      "have_ffmpeg (cam final)" "ffmpeg_returncode (cam final) = 0"
      by simp_all
    from teardown_stops_and_converts [OF this, of b3]
    show "\<exists>s' w'. teardown final (b3, s3, w3) = Ok () (close_button b3, s', w')
           \<and> proc s' = None \<and> current_h264 s' = None
           \<and> status s' = status s3 @ [''Stopping active recording...'', ''STOP...'',
                                       ''MP4 -> '' @ str_path q4, ''Service stopped.'']
           \<and> calls w' = calls w3 @ escalation_calls k (now w3) default_stop_timeout (procs w3 ! k)
                          @ finalize_calls (now w') q q4
           \<and> poll_exited w' k"
      by blast
  qed
  have i: "check_initial_state (Some (on_button_pressed startup)) (line_level startup)
           (b, say (''Output directory: '' @ str_path (output_dir s))
                 (say ''Ready. Latching switch: ON=start, OFF=stop+mp4'' s), w)
          = Ok was_on (b2, s2, w2)
        \<and> run_loop envs
             (b2, (if was_on then say ''Button was ON at startup, recording started'' s2 else s2)
                    \<lparr> running := True \<rparr>, w2)
          = Ok u5 (b5, s5, w5)
        \<and> proc s5 = Some h \<and> \<not> poll_exited w5 h
        \<and> current_h264 s5 = Some p \<and> h264_exists final \<and> with_suffix p ''.mp4'' = Inr mp4
        \<and> have_ffmpeg (cam final) \<and> ffmpeg_returncode (cam final) = 0 \<longrightarrow>
        (\<exists>s' w'. service_run startup envs final (b, s, w) = Ok 0 (close_button b5, s', w')
           \<and> proc s' = None \<and> current_h264 s' = None
           \<and> status s' = status s5 @ [''Stopping active recording...'', ''STOP...'',
                                       ''MP4 -> '' @ str_path mp4, ''Service stopped.'']
           \<and> calls w' = calls w5 @ escalation_calls h (now w5) default_stop_timeout (procs w5 ! h)
                          @ finalize_calls (now w') p mp4
           \<and> live_handles w' = [])"
  proof
    assume x: "check_initial_state (Some (on_button_pressed startup)) (line_level startup)
           (b, say (''Output directory: '' @ str_path (output_dir s))
                 (say ''Ready. Latching switch: ON=start, OFF=stop+mp4'' s), w)
          = Ok was_on (b2, s2, w2)
        \<and> run_loop envs
             (b2, (if was_on then say ''Button was ON at startup, recording started'' s2 else s2)
                    \<lparr> running := True \<rparr>, w2)
          = Ok u5 (b5, s5, w5)
        \<and> proc s5 = Some h \<and> \<not> poll_exited w5 h
        \<and> current_h264 s5 = Some p \<and> h264_exists final \<and> with_suffix p ''.mp4'' = Inr mp4
        \<and> have_ffmpeg (cam final) \<and> ffmpeg_returncode (cam final) = 0"
    then have "check_initial_state (Some (on_button_pressed startup)) (line_level startup)
           (b, say (''Output directory: '' @ str_path (output_dir s))
                 (say ''Ready. Latching switch: ON=start, OFF=stop+mp4'' s), w)
          = Ok was_on (b2, s2, w2)"
      "run_loop envs
             (b2, (if was_on then say ''Button was ON at startup, recording started'' s2 else s2)
                    \<lparr> running := True \<rparr>, w2)
          = Ok u5 (b5, s5, w5)"
      "proc s5 = Some h" "\<not> poll_exited w5 h"
      "current_h264 s5 = Some p" "h264_exists final" "with_suffix p ''.mp4'' = Inr mp4"
      "have_ffmpeg (cam final)" "ffmpeg_returncode (cam final) = 0"
      by blast+
    from service_run_stops_and_converts [OF inv this]
    show "\<exists>s' w'. service_run startup envs final (b, s, w) = Ok 0 (close_button b5, s', w')
           \<and> proc s' = None \<and> current_h264 s' = None
           \<and> status s' = status s5 @ [''Stopping active recording...'', ''STOP...'',
                                       ''MP4 -> '' @ str_path mp4, ''Service stopped.'']
           \<and> calls w' = calls w5 @ escalation_calls h (now w5) default_stop_timeout (procs w5 ! h)
                          @ finalize_calls (now w') p mp4
           \<and> live_handles w' = []" .
  qed
  from d have d': "service_run startup envs final (b, s, w) \<noteq> NoReturn \<longrightarrow>
        returns_in (\<lambda>st'. live_handles (snd (snd st')) = [] \<and> \<not> recording (snd st'))
          (service_run startup envs final (b, s, w))"
    by blast
  from a b c d' e f g i show ?thesis
    by (intro conjI) blast+
qed

lemma startup_with_button_on:
  "check_initial_state (Some (on_button_pressed (a_tick True None))) (line_level (a_tick True None))
     (fresh_button,
      say (''Output directory: '' @ str_path (output_dir fresh_service))
        (say ''Ready. Latching switch: ON=start, OFF=stop+mp4'' fresh_service),
      fresh_world) =
   Ok True (started_button, started_service, started_world)"
  by code_simp

lemma loop_until_signal:
  "run_loop [a_tick True None, a_tick True (Some SIGTERM)]
     (started_button,
      (if True then say ''Button was ON at startup, recording started'' started_service
       else started_service) \<lparr> running := True \<rparr>,
      started_world) =
   Ok () (started_button, signalled_service, signalled_world)"
  by code_simp

lemma shutdown_while_recording:
  "service_run (a_tick True None) [a_tick True None, a_tick True (Some SIGTERM)]
      (a_tick True None) (fresh_button, fresh_service, fresh_world) =
   Ok 0 (close_button started_button,
         signalled_service
           \<lparr> status := status signalled_service @
               [''Stopping active recording...'', ''STOP...'',
                ''MP4 -> /media/usb/slitlamp-recordings/slitlamp_recordings/rec_20260101_120000.mp4'',
                ''Service stopped.''],
             proc := None, current_h264 := None \<rparr>,
         \<lparr> now = 300, procs = [steady_child \<lparr> exit_time := Some 300 \<rparr>],
           calls = calls started_world @
             [(100, SendSignal 0 SIGINT), (100, Wait 0 (Some 5000)),
              (300, RunCmd [''ffmpeg'', ''-y'', ''-fflags'', ''+genpts'', ''-r'', ''25'', ''-i'',
                 ''/media/usb/slitlamp-recordings/slitlamp_recordings/rec_20260101_120000.h264'',
                 ''-c'', ''copy'',
                 ''/media/usb/slitlamp-recordings/slitlamp_recordings/rec_20260101_120000.mp4'']),
              (300, RunCmd [''sync''])] \<rparr>)"
  by code_simp

lemma session_mp4_text:
  "with_suffix session_h264 ''.mp4'' = Inr session_mp4
   \<and> str_path session_mp4 =
       ''/media/usb/slitlamp-recordings/slitlamp_recordings/rec_20260101_120000.mp4''"
  by code_simp

lemma stop_and_finalize_calls:
  "escalation_calls 0 (now signalled_world) default_stop_timeout (procs signalled_world ! 0)
     @ finalize_calls 300 session_h264 session_mp4 =
   [(100, SendSignal 0 SIGINT), (100, Wait 0 (Some 5000)),
    (300, RunCmd [''ffmpeg'', ''-y'', ''-fflags'', ''+genpts'', ''-r'', ''25'', ''-i'',
       ''/media/usb/slitlamp-recordings/slitlamp_recordings/rec_20260101_120000.h264'',
       ''-c'', ''copy'',
       ''/media/usb/slitlamp-recordings/slitlamp_recordings/rec_20260101_120000.mp4'']),
    (300, RunCmd [''sync''])]"
  by code_simp

theorem shutdown_leaves_no_capture_process_witness:
  "proc fresh_service = None \<and> procs fresh_world = []
   \<and> running (fresh_service \<lparr> running := True \<rparr>)
   \<and> shutdown_signal (a_tick True (Some SIGTERM)) = Some SIGTERM
   \<and> run_loop [a_tick True (Some SIGTERM), a_tick True None]
        (fresh_button, fresh_service \<lparr> running := True \<rparr>, fresh_world) =
       Ok () (fresh_button \<lparr> last_state := Some True \<rparr>,
              handle_shutdown SIGTERM (fresh_service \<lparr> running := True \<rparr>),
              sleep POLL_INTERVAL fresh_world)
   \<and> service_run (a_tick True None) [a_tick False None, a_tick False (Some SIGTERM)]
        (a_tick False None) (fresh_button, fresh_service, fresh_world) \<noteq> NoReturn
   \<and> returns_in (\<lambda>st'. live_handles (snd (snd st')) = [] \<and> \<not> recording (snd st'))
        (service_run (a_tick True None) [a_tick False None, a_tick False (Some SIGTERM)]
           (a_tick False None) (fresh_button, fresh_service, fresh_world))
   \<and> check_initial_state (Some (on_button_pressed (a_tick True None)))
        (line_level (a_tick True None))
        (fresh_button,
         say (''Output directory: '' @ str_path (output_dir fresh_service))
           (say ''Ready. Latching switch: ON=start, OFF=stop+mp4'' fresh_service),
         fresh_world) =
       Ok True (started_button, started_service, started_world)
   \<and> run_loop [a_tick True None, a_tick True (Some SIGTERM)]
        (started_button,
         (if True then say ''Button was ON at startup, recording started'' started_service
          else started_service) \<lparr> running := True \<rparr>,
         started_world) =
       Ok () (started_button, signalled_service, signalled_world)
   \<and> proc signalled_service = Some 0
   \<and> current_h264 signalled_service = Some session_h264
   \<and> live_handles signalled_world = [0]
   \<and> (\<exists>s' w'. teardown (a_tick True None) (started_button, signalled_service, signalled_world) =
                  Ok () (close_button started_button, s', w')
         \<and> service_run (a_tick True None) [a_tick True None, a_tick True (Some SIGTERM)]
               (a_tick True None) (fresh_button, fresh_service, fresh_world) =
             Ok 0 (close_button started_button, s', w')
         \<and> proc s' = None \<and> current_h264 s' = None \<and> live_handles w' = []
         \<and> status s' = status signalled_service @
              [''Stopping active recording...'', ''STOP...'',
               ''MP4 -> /media/usb/slitlamp-recordings/slitlamp_recordings/rec_20260101_120000.mp4'',
               ''Service stopped.'']
         \<and> calls w' = calls signalled_world @
              [(100, SendSignal 0 SIGINT), (100, Wait 0 (Some 5000)),
               (300, RunCmd [''ffmpeg'', ''-y'', ''-fflags'', ''+genpts'', ''-r'', ''25'', ''-i'',
                  ''/media/usb/slitlamp-recordings/slitlamp_recordings/rec_20260101_120000.h264'',
                  ''-c'', ''copy'',
                  ''/media/usb/slitlamp-recordings/slitlamp_recordings/rec_20260101_120000.mp4'']),
               (300, RunCmd [''sync''])])"
proof -
  have h1: "proc fresh_service = None" by (simp add: fresh_service_def)
  have h2: "procs fresh_world = []" by (simp add: fresh_world_def)
  have r: "running (fresh_service \<lparr> running := True \<rparr>)" by simp
  have g: "shutdown_signal (a_tick True (Some SIGTERM)) = Some SIGTERM"
    by (simp add: a_tick_def)
  have p: "poll (Some (on_button_pressed (a_tick True (Some SIGTERM))))
             (Some (on_button_released (a_tick True (Some SIGTERM))))
             (line_level (a_tick True (Some SIGTERM)))
             (fresh_button, fresh_service \<lparr> running := True \<rparr>, fresh_world) =
           Ok () (fresh_button \<lparr> last_state := Some True \<rparr>,
                  fresh_service \<lparr> running := True \<rparr>, fresh_world)"
    by (simp add: poll_def fresh_button_def is_pressed_def a_tick_def)
  have e: "\<exists>env \<in> set [a_tick False None, a_tick False (Some SIGTERM)]. shutdown_signal env \<noteq> None"
    by (simp add: a_tick_def)
  note t = shutdown_leaves_no_capture_process [OF h1 h2,
      where sig = SIGTERM and ?s0.0 = fresh_service and env = "a_tick True (Some SIGTERM)"
        and st = "(fresh_button, fresh_service \<lparr> running := True \<rparr>, fresh_world)"
        and u = "()" and ?b1.0 = "fresh_button \<lparr> last_state := Some True \<rparr>"
        and ?s1.0 = "fresh_service \<lparr> running := True \<rparr>" and ?w1.0 = fresh_world
        and envs' = "[a_tick True None]" and startup = "a_tick True None"
        and envs = "[a_tick False None, a_tick False (Some SIGTERM)]"
        and final = "a_tick False None" and b = fresh_button]
  have r': "running (fst (snd (fresh_button, fresh_service \<lparr> running := True \<rparr>, fresh_world)))"
    by simp
  from t r' g p have t1: "run_loop [a_tick True (Some SIGTERM), a_tick True None]
        (fresh_button, fresh_service \<lparr> running := True \<rparr>, fresh_world) =
       Ok () (fresh_button \<lparr> last_state := Some True \<rparr>,
              handle_shutdown SIGTERM (fresh_service \<lparr> running := True \<rparr>),
              sleep POLL_INTERVAL fresh_world)"
    by blast
  from t e have t2: "service_run (a_tick True None) [a_tick False None, a_tick False (Some SIGTERM)]
        (a_tick False None) (fresh_button, fresh_service, fresh_world) \<noteq> NoReturn"
    by blast
  from t t2 have t3: "returns_in (\<lambda>st'. live_handles (snd (snd st')) = [] \<and> \<not> recording (snd st'))
        (service_run (a_tick True None) [a_tick False None, a_tick False (Some SIGTERM)]
           (a_tick False None) (fresh_button, fresh_service, fresh_world))"
    by blast
  have k1: "proc signalled_service = Some 0"
    by (simp add: signalled_service_def started_service_def)
  have k2: "current_h264 signalled_service = Some session_h264"
    by (simp add: signalled_service_def started_service_def session_h264_def)
  have k3: "\<not> poll_exited signalled_world 0"
    by (simp add: signalled_world_def started_world_def steady_child_def poll_exited_def exited_def)
  have k4: "0 < length (procs signalled_world)"
    by (simp add: signalled_world_def started_world_def)
  have k5: "live_handles signalled_world = [0]"
    using k3 by (simp add: live_handles_def signalled_world_def started_world_def)
  have k6: "h264_exists (a_tick True None)" "have_ffmpeg (cam (a_tick True None))"
    "ffmpeg_returncode (cam (a_tick True None)) = 0"
    by (simp_all add: a_tick_def pi_camera_def)
  note m = session_mp4_text [THEN conjunct1]
  note n = session_mp4_text [THEN conjunct2]
  note t' = shutdown_leaves_no_capture_process [OF h1 h2,
      where startup = "a_tick True None"
        and envs = "[a_tick True None, a_tick True (Some SIGTERM)]"
        and final = "a_tick True None" and b = fresh_button
        and ?s3.0 = signalled_service and ?w3.0 = signalled_world and ?b3.0 = started_button
        and k = 0 and q = session_h264 and ?q4.0 = session_mp4
        and was_on = True and ?b2.0 = started_button and ?s2.0 = started_service
        and ?w2.0 = started_world and ?u5.0 = "()" and ?b5.0 = started_button
        and ?s5.0 = signalled_service and ?w5.0 = signalled_world
        and h = 0 and p = session_h264 and ?mp4.0 = session_mp4]
  from t' k1 k2 k3 k4 k6 m obtain s3' w3'
    where td: "teardown (a_tick True None) (started_button, signalled_service, signalled_world) =
                 Ok () (close_button started_button, s3', w3')"
    by blast
  from t' startup_with_button_on loop_until_signal k1 k2 k3 k6 m obtain s' w'
    where sr: "service_run (a_tick True None) [a_tick True None, a_tick True (Some SIGTERM)]
                 (a_tick True None) (fresh_button, fresh_service, fresh_world) =
               Ok 0 (close_button started_button, s', w')"
      and f: "proc s' = None" "current_h264 s' = None"
        "status s' = status signalled_service @ [''Stopping active recording...'', ''STOP...'',
                                       ''MP4 -> '' @ str_path session_mp4, ''Service stopped.'']"
        "calls w' = calls signalled_world
             @ escalation_calls 0 (now signalled_world) default_stop_timeout (procs signalled_world ! 0)
             @ finalize_calls (now w') session_h264 session_mp4"
        "live_handles w' = []"
    by blast
  from sr shutdown_while_recording have "now w' = 300" by auto
  with f(4) stop_and_finalize_calls have c: "calls w' = calls signalled_world @
              [(100, SendSignal 0 SIGINT), (100, Wait 0 (Some 5000)),
               (300, RunCmd [''ffmpeg'', ''-y'', ''-fflags'', ''+genpts'', ''-r'', ''25'', ''-i'',
                  ''/media/usb/slitlamp-recordings/slitlamp_recordings/rec_20260101_120000.h264'',
                  ''-c'', ''copy'',
                  ''/media/usb/slitlamp-recordings/slitlamp_recordings/rec_20260101_120000.mp4'']),
               (300, RunCmd [''sync''])]"
    by simp
  from f(3) n have s: "status s' = status signalled_service @
              [''Stopping active recording...'', ''STOP...'',
               ''MP4 -> /media/usb/slitlamp-recordings/slitlamp_recordings/rec_20260101_120000.mp4'',
               ''Service stopped.'']"
    by simp
  have td': "teardown (a_tick True None) (started_button, signalled_service, signalled_world) =
                 Ok () (close_button started_button, s', w')"
    using sr startup_with_button_on loop_until_signal
    by (cases "teardown (a_tick True None) (started_button, signalled_service, signalled_world)")
      (simp_all add: service_run_def Let_def)
  from td' sr f(1,2,5) s c
  have last: "\<exists>s' w'. teardown (a_tick True None) (started_button, signalled_service, signalled_world) =
                  Ok () (close_button started_button, s', w')
         \<and> service_run (a_tick True None) [a_tick True None, a_tick True (Some SIGTERM)]
               (a_tick True None) (fresh_button, fresh_service, fresh_world) =
             Ok 0 (close_button started_button, s', w')
         \<and> proc s' = None \<and> current_h264 s' = None \<and> live_handles w' = []
         \<and> status s' = status signalled_service @
              [''Stopping active recording...'', ''STOP...'',
               ''MP4 -> /media/usb/slitlamp-recordings/slitlamp_recordings/rec_20260101_120000.mp4'',
               ''Service stopped.'']
         \<and> calls w' = calls signalled_world @
              [(100, SendSignal 0 SIGINT), (100, Wait 0 (Some 5000)),
               (300, RunCmd [''ffmpeg'', ''-y'', ''-fflags'', ''+genpts'', ''-r'', ''25'', ''-i'',
                  ''/media/usb/slitlamp-recordings/slitlamp_recordings/rec_20260101_120000.h264'',
                  ''-c'', ''copy'',
                  ''/media/usb/slitlamp-recordings/slitlamp_recordings/rec_20260101_120000.mp4'']),
               (300, RunCmd [''sync''])]"
    by blast
  from h1 h2 r g t1 t2 t3 startup_with_button_on loop_until_signal k1 k2 k5 last
  show ?thesis by (intro conjI)
qed

lemma start_recording_attempts:
  assumes "start_recording env w p f = (r, w1)"
  shows "popen_attempts w1 \<le> Suc (popen_attempts w)"
  using assms
  by (auto simp: start_recording_def log_call_def Let_def popen_attempts_def
           split: option.splits sum.splits)

lemma is_pressed_baseline [simp]: "is_pressed (b \<lparr> last_state := x \<rparr>) line = is_pressed b line"
  by (simp add: is_pressed_def)

text \<open>
  Claim C6. On an input that is pressed, \<open>check_initial_state\<close> calls the press
  callback once (a callback that counts presses goes from \<open>p\<close> to \<open>p + 1\<close>, the count
  of releases stays), calls no release callback, returns true and records the level as
  the baseline; a poll that follows at the same level calls no callback, and the first
  iteration of the loop of the service dispatches no edge.
\<close>

theorem initial_press_one_transition:
  assumes "is_pressed b line"
  shows "check_initial_state (Some f) line (b, s) =
           (case f s of
              Ok u s1 \<Rightarrow> Ok True (b \<lparr> last_state := Some True \<rparr>, s1)
            | Raise exc s1 \<Rightarrow> Raise exc (b \<lparr> last_state := Some True \<rparr>, s1)
            | NoReturn \<Rightarrow> NoReturn)
    \<and> check_initial_state (Some (\<lambda>c. Ok () (Suc (fst c), snd c))) line (b, (p, r)) =
        Ok True (b \<lparr> last_state := Some True \<rparr>, (Suc p, r))
    \<and> poll (Some f') (Some g) line (b \<lparr> last_state := Some True \<rparr>, s1) =
        Ok () (b \<lparr> last_state := Some True \<rparr>, s1)
    \<and> (running s2 \<and> line_level env = line \<longrightarrow>
        run_loop (env # envs) (b \<lparr> last_state := Some True \<rparr>, s2, w2) =
          run_loop envs (deliver_shutdown env
            (b \<lparr> last_state := Some True \<rparr>, s2, sleep POLL_INTERVAL w2)))"
proof -
  have p: "poll (Some f') (Some g) line (b \<lparr> last_state := Some True \<rparr>, s1) =
             Ok () (b \<lparr> last_state := Some True \<rparr>, s1)" for f' g s1
    using assms by (simp add: poll_def Let_def)
  have c: "check_initial_state (Some f) line (b, s) =
           (case f s of
              Ok u s1 \<Rightarrow> Ok True (b \<lparr> last_state := Some True \<rparr>, s1)
            | Raise exc s1 \<Rightarrow> Raise exc (b \<lparr> last_state := Some True \<rparr>, s1)
            | NoReturn \<Rightarrow> NoReturn)" for f :: "'s \<Rightarrow> (unit, 's) res" and s
    using assms by (cases "f s") (simp_all add: check_initial_state_def Let_def)
  show ?thesis
    by (simp add: p c)
qed

theorem initial_press_one_transition_witness:
  "is_pressed fresh_button True
   \<and> check_initial_state (Some (\<lambda>c. Ok () (Suc (fst c), snd c))) True (fresh_button, (0, 0)) =
       Ok True (fresh_button \<lparr> last_state := Some True \<rparr>, (Suc 0, 0::nat))
   \<and> poll (Some (\<lambda>c. Ok () (Suc (fst c), snd c))) (Some (\<lambda>c. Ok () (fst c, Suc (snd c)))) True
        (fresh_button \<lparr> last_state := Some True \<rparr>, (Suc 0, 0::nat)) =
       Ok () (fresh_button \<lparr> last_state := Some True \<rparr>, (Suc 0, 0))"
proof -
  have h: "is_pressed fresh_button True"
    by (simp add: is_pressed_def fresh_button_def)
  note t = initial_press_one_transition [OF h,
        where f = "\<lambda>c. Ok () (Suc (fst c), snd c)" and s = "(0::nat, 0::nat)"
          and p = 0 and r = "0::nat" and f' = "\<lambda>c. Ok () (Suc (fst c), snd c)"
          and g = "\<lambda>c. Ok () (fst c, Suc (snd c))" and ?s1.0 = "(Suc 0, 0::nat)"
          and ?s2.0 = fresh_service and env = "a_tick True None" and envs = "[]"
          and ?w2.0 = fresh_world]
  from t h show ?thesis by blast
qed

text \<open>
  Claim C8. When the service is not recording and the start of the capture process
  fails, the press handler returns with no handle and no output path stored, the error
  reported after the start message, no process added, and at most one launch attempted. A
  service that was idle with nothing stored differs afterwards in its status log only.
  The next press whose start succeeds stores the new handle and the new path.
\<close>

theorem failed_start_stays_idle:
  assumes idle: "\<not> recording (s, w)"
    and fail: "start_recording (cam env) w
                 (joinpath (output_dir s) (''rec_'' @ timestamp env @ ''.h264'')) DEFAULT_FPS
               = (Inl exc, w1)"
  shows "\<exists>s'. on_button_pressed env (s, w) = Ok () (s', w1)
      \<and> proc s' = None \<and> current_h264 s' = None
      \<and> output_dir s' = output_dir s \<and> running s' = running s
      \<and> status s' = status s @
           [''START -> '' @ str_path (joinpath (output_dir s) (''rec_'' @ timestamp env @ ''.h264'')),
            ''ERROR starting recording: '' @ str_exn exc]
      \<and> (proc s = None \<and> current_h264 s = None \<longrightarrow> s' = s \<lparr> status := status s' \<rparr>)
      \<and> \<not> recording (s', w1)
      \<and> procs w1 = procs w \<and> now w1 = now w
      \<and> popen_attempts w1 \<le> Suc (popen_attempts w)
      \<and> (\<forall>env2 h w2.
            start_recording (cam env2) w1
              (joinpath (output_dir s) (''rec_'' @ timestamp env2 @ ''.h264'')) DEFAULT_FPS
            = (Inr h, w2) \<longrightarrow>
            (\<exists>s2. on_button_pressed env2 (s', w1) = Ok () (s2, w2)
               \<and> proc s2 = Some h
               \<and> current_h264 s2 =
                   Some (joinpath (output_dir s) (''rec_'' @ timestamp env2 @ ''.h264''))))"
proof -
  let ?h264 = "joinpath (output_dir s) (''rec_'' @ timestamp env @ ''.h264'')"
  define s' where "s' = (say (''ERROR starting recording: '' @ str_exn exc)
                    (say (''START -> '' @ str_path ?h264) (s \<lparr> current_h264 := Some ?h264 \<rparr>)))
                  \<lparr> proc := None, current_h264 := None \<rparr>"
  have eq: "on_button_pressed env (s, w) = Ok () (s', w1)"
    unfolding s'_def by (rule pressed_start_fail [OF idle fail])
  have f: "proc s' = None" "current_h264 s' = None" "output_dir s' = output_dir s"
    "running s' = running s"
    "status s' = status s @ [''START -> '' @ str_path ?h264,
                             ''ERROR starting recording: '' @ str_exn exc]"
    by (simp_all add: s'_def say_def)
  have same: "s' = s \<lparr> status := status s' \<rparr>" if "proc s = None \<and> current_h264 s = None"
    using that by (simp add: s'_def say_def)
  have nr: "\<not> recording (s', w1)"
    by (simp add: recording_def f)
  note st = start_recording_fail [OF fail] start_recording_attempts [OF fail]
  have again: "\<exists>s2. on_button_pressed env2 (s', w1) = Ok () (s2, w2)
               \<and> proc s2 = Some h
               \<and> current_h264 s2 =
                   Some (joinpath (output_dir s) (''rec_'' @ timestamp env2 @ ''.h264''))"
    if "start_recording (cam env2) w1
          (joinpath (output_dir s) (''rec_'' @ timestamp env2 @ ''.h264'')) DEFAULT_FPS
        = (Inr h, w2)" for env2 h w2
    using pressed_start_ok [OF nr, of env2 h w2] that by (simp add: f)
  show ?thesis
    using eq f same nr st again by blast
qed

theorem failed_start_stays_idle_witness:
  "\<not> recording (fresh_service, fresh_world)
   \<and> (\<exists>exc w1. start_recording (cam ((a_tick True None) \<lparr> cam := no_camera \<rparr>)) fresh_world
          (joinpath (output_dir fresh_service)
             (''rec_'' @ timestamp ((a_tick True None) \<lparr> cam := no_camera \<rparr>) @ ''.h264''))
          DEFAULT_FPS = (Inl exc, w1)
        \<and> (\<exists>s'. on_button_pressed ((a_tick True None) \<lparr> cam := no_camera \<rparr>)
                   (fresh_service, fresh_world) = Ok () (s', w1)
              \<and> proc s' = None \<and> current_h264 s' = None \<and> procs w1 = []
              \<and> s' = fresh_service \<lparr> status := status s' \<rparr>))"
proof -
  let ?env = "(a_tick True None) \<lparr> cam := no_camera \<rparr>"
  have idle: "\<not> recording (fresh_service, fresh_world)"
    by (simp add: recording_def fresh_service_def)
  obtain r w1 where st: "start_recording (cam ?env) fresh_world
          (joinpath (output_dir fresh_service) (''rec_'' @ timestamp ?env @ ''.h264''))
          DEFAULT_FPS = (r, w1)"
    by (cases "start_recording (cam ?env) fresh_world
          (joinpath (output_dir fresh_service) (''rec_'' @ timestamp ?env @ ''.h264''))
          DEFAULT_FPS")
  then obtain exc where r: "r = Inl exc"
    by (auto simp: start_recording_def Let_def a_tick_def no_camera_def pi_camera_def
          get_camera_command_def)
  have f: "proc fresh_service = None \<and> current_h264 fresh_service = None" "procs fresh_world = []"
    by (simp_all add: fresh_service_def fresh_world_def)
  from failed_start_stays_idle [OF idle st [unfolded r]] obtain s'
    where a: "on_button_pressed ?env (fresh_service, fresh_world) = Ok () (s', w1)"
      "proc s' = None" "current_h264 s' = None" "procs w1 = procs fresh_world"
      "proc fresh_service = None \<and> current_h264 fresh_service = None \<longrightarrow>
         s' = fresh_service \<lparr> status := status s' \<rparr>"
    by blast
  from a(4) f(2) have "procs w1 = []" by simp
  with a f(1) idle st [unfolded r] show ?thesis by blast
qed

text \<open>
  Claim C10. When the capture process of the session has exited by itself, a release
  only reports that nothing is recording: no signal is sent and no conversion is run (the
  processes and the calls are unchanged), and the handle and the output path stay stored.
  The teardown of \<open>run\<close> does not call the release handler at all in that state. The
  next press replaces the stored path by the new one, or clears it when the start fails.
\<close>

theorem exited_capture_left_unconverted:
  assumes "proc s = Some h" and "poll_exited w h"
  shows "on_button_released env (s, w) = Ok () (say ''Not recording, ignoring release'' s, w)
    \<and> proc (say ''Not recording, ignoring release'' s) = Some h
    \<and> current_h264 (say ''Not recording, ignoring release'' s) = current_h264 s
    \<and> teardown env (b, s, w) = Ok () (close_button b, say ''Service stopped.'' s, w)
    \<and> (\<exists>s' w'. on_button_pressed env2 (s, w) = Ok () (s', w')
          \<and> (current_h264 s' = None
               \<or> current_h264 s' =
                    Some (joinpath (output_dir s) (''rec_'' @ timestamp env2 @ ''.h264''))))"
proof -
  from assms have idle: "\<not> recording (s, w)"
    by (simp add: recording_def)
  obtain r w1 where st: "start_recording (cam env2) w
          (joinpath (output_dir s) (''rec_'' @ timestamp env2 @ ''.h264'')) DEFAULT_FPS = (r, w1)"
    by (cases "start_recording (cam env2) w
          (joinpath (output_dir s) (''rec_'' @ timestamp env2 @ ''.h264'')) DEFAULT_FPS")
  have next_press: "\<exists>s' w'. on_button_pressed env2 (s, w) = Ok () (s', w')
          \<and> (current_h264 s' = None
               \<or> current_h264 s' =
                    Some (joinpath (output_dir s) (''rec_'' @ timestamp env2 @ ''.h264'')))"
  proof (cases r)
    case (Inl exc)
    from pressed_start_fail [OF idle st [unfolded Inl]] show ?thesis by simp
  next
    case (Inr h')
    from pressed_start_ok [OF idle st [unfolded Inr]] show ?thesis by simp
  qed
  from idle assms(1) next_press show ?thesis
    by (simp add: released_idle teardown_def Let_def)
qed

lemma press_with_crashing_child:
  "on_button_pressed crashing_tick (fresh_service, fresh_world) =
     Ok () (abandoned_service, abandoned_world)"
  by code_simp

lemma release_after_crash:
  "feed [(0, Pressed, crashing_tick), (1000, Released, a_tick False None)]
      (fresh_service, fresh_world) =
     Ok () (say ''Not recording, ignoring release'' abandoned_service, sleep 1000 abandoned_world)"
  by code_simp

lemma release_before_crash:
  "(case feed [(0, Pressed, crashing_tick), (400, Released, a_tick False None)]
          (fresh_service, fresh_world) of
      Ok u sw \<Rightarrow> (proc (fst sw), current_h264 (fst sw), map snd (drop 2 (calls (snd sw))))
    | _ \<Rightarrow> (None, None, [])) =
   (None, None,
    [SendSignal 0 SIGINT, Wait 0 (Some 5000),
     RunCmd [''ffmpeg'', ''-y'', ''-fflags'', ''+genpts'', ''-r'', ''25'', ''-i'',
            ''/media/usb/slitlamp-recordings/slitlamp_recordings/rec_20260101_120000.h264'',
            ''-c'', ''copy'',
            ''/media/usb/slitlamp-recordings/slitlamp_recordings/rec_20260101_120000.mp4''],
     RunCmd [''sync'']])"
  by code_simp

theorem exited_capture_left_unconverted_witness:
  "on_button_pressed crashing_tick (fresh_service, fresh_world) =
     Ok () (abandoned_service, abandoned_world)
   \<and> recording (abandoned_service, sleep 400 abandoned_world)
   \<and> proc abandoned_service = Some 0
   \<and> poll_exited (sleep 1000 abandoned_world) 0
   \<and> on_button_released (a_tick False None) (abandoned_service, sleep 1000 abandoned_world) =
       Ok () (say ''Not recording, ignoring release'' abandoned_service, sleep 1000 abandoned_world)
   \<and> proc (say ''Not recording, ignoring release'' abandoned_service) = Some 0
   \<and> current_h264 (say ''Not recording, ignoring release'' abandoned_service) =
       Some (Path ''/'' [''media'', ''usb'', ''slitlamp-recordings'', ''slitlamp_recordings'',
                        ''rec_20260101_120000.h264''])
   \<and> calls (sleep 1000 abandoned_world) = calls abandoned_world
   \<and> teardown (a_tick False None) (fresh_button, abandoned_service, sleep 1000 abandoned_world) =
       Ok () (close_button fresh_button, say ''Service stopped.'' abandoned_service,
              sleep 1000 abandoned_world)
   \<and> feed [(0, Pressed, crashing_tick), (1000, Released, a_tick False None)]
        (fresh_service, fresh_world) =
       Ok () (say ''Not recording, ignoring release'' abandoned_service, sleep 1000 abandoned_world)"
proof -
  have live: "recording (abandoned_service, sleep 400 abandoned_world)"
    by (simp add: recording_def abandoned_service_def abandoned_world_def sleep_def
          poll_exited_def exited_def crashed_child_def)
  have h1: "proc abandoned_service = Some 0"
    by (simp add: abandoned_service_def)
  have h2: "poll_exited (sleep 1000 abandoned_world) 0"
    by (simp add: poll_exited_def exited_def abandoned_world_def sleep_def crashed_child_def)
  have p: "current_h264 abandoned_service =
       Some (Path ''/'' [''media'', ''usb'', ''slitlamp-recordings'', ''slitlamp_recordings'',
                        ''rec_20260101_120000.h264''])"
    by (simp add: abandoned_service_def)
  have c: "calls (sleep 1000 abandoned_world) = calls abandoned_world"
    by (simp add: sleep_def)
  note t = exited_capture_left_unconverted [OF h1 h2,
      where env = "a_tick False None" and b = fresh_button and ?env2.0 = "a_tick True None"]
  from t have t1: "on_button_released (a_tick False None)
        (abandoned_service, sleep 1000 abandoned_world) =
       Ok () (say ''Not recording, ignoring release'' abandoned_service, sleep 1000 abandoned_world)"
    by blast
  from t have t2: "proc (say ''Not recording, ignoring release'' abandoned_service) = Some 0"
    by blast
  from t p have t3: "current_h264 (say ''Not recording, ignoring release'' abandoned_service) =
       Some (Path ''/'' [''media'', ''usb'', ''slitlamp-recordings'', ''slitlamp_recordings'',
                        ''rec_20260101_120000.h264''])"
    by simp
  from t have t4: "teardown (a_tick False None)
        (fresh_button, abandoned_service, sleep 1000 abandoned_world) =
       Ok () (close_button fresh_button, say ''Service stopped.'' abandoned_service,
              sleep 1000 abandoned_world)"
    by blast
  from press_with_crashing_child live h1 h2 t1 t2 t3 c t4 release_after_crash
  show ?thesis by blast
qed

lemma candidate_under_dir:
  "candidate env d n = Some t \<Longrightarrow> \<exists>mp. mountpoint t = joinpath mp d"
  by (auto simp: candidate_def Let_def split: option.splits if_splits)

lemma target_under_dir:
  assumes "t \<in> set (find_usb_mount_targets env d ps)"
  shows "\<exists>mp. mountpoint t = joinpath mp d"
proof (cases "override_set env")
  case True
  with assms show ?thesis
    by (auto simp: find_usb_mount_targets_def)
next
  case False
  show ?thesis
  proof (cases "run_lsblk_json env")
    case (Inl exc)
    with False assms show ?thesis by (simp add: find_usb_mount_targets_def)
  next
    case (Inr tree)
    with False assms have "t \<in> set (collect_candidates env d (flatten_lsblk tree))"
      by (simp add: find_by_lsblk set_sort_reverse)
    from collect_origin [OF this] candidate_under_dir show ?thesis by blast
  qed
qed

lemma choose_in_find:
  "choose_usb_target env = Some t \<Longrightarrow>
     t \<in> set (find_usb_mount_targets env default_recordings_dir_name default_prefer_label_prefixes)"
  by (auto simp: choose_usb_target_def split: list.splits)

lemma join_recordings_dir:
  "joinpath mp default_recordings_dir_name = Path (root mp) (parts mp @ [''slitlamp-recordings''])"
  by (simp add: joinpath_def path_components_def default_recordings_dir_name_def)

lemma join_recordings_subdir:
  "joinpath p RECORDINGS_SUBDIR = Path (root p) (parts p @ [''slitlamp_recordings''])"
  by (simp add: joinpath_def path_components_def RECORDINGS_SUBDIR_def)

lemma split_on_absent: "c \<notin> set s \<Longrightarrow> split_on c s = [s]"
  by (induction s) auto

lemma join_plain_name:
  assumes "CHR ''/'' \<notin> set n" and "n \<noteq> []" and "n \<noteq> ''.''"
  shows "joinpath p n = Path (root p) (parts p @ [n])"
proof -
  from assms(1,2) have "\<not> prefix ''/'' n"
    by (cases n) auto
  with assms show ?thesis
    by (simp add: joinpath_def path_components_def split_on_absent)
qed

text \<open>
  Claim C1. The directory that the record-service command gives to the recorder lies two
  directories below the mount point: the target of the resolver already ends with
  \<open>slitlamp-recordings\<close>, and the command appends \<open>slitlamp_recordings\<close>. The
  recordings \<open>rec_<stamp>.h264\<close> are therefore written two levels below the mount
  point, while the record-test command writes \<open>test_<stamp>.h264\<close> one level below it.
\<close>

theorem record_service_nests_two_directories:
  assumes "record_service_output_dir senv cenv = Inr dir"
  shows "\<exists>target mp. choose_usb_target senv = Some target
      \<and> mountpoint target = Path (root mp) (parts mp @ [''slitlamp-recordings''])
      \<and> dir = Path (root mp) (parts mp @ [''slitlamp-recordings'', ''slitlamp_recordings''])
      \<and> (\<forall>stamp. CHR ''/'' \<notin> set stamp \<longrightarrow>
            joinpath dir (''rec_'' @ stamp @ ''.h264'') =
              Path (root mp) (parts mp @ [''slitlamp-recordings'', ''slitlamp_recordings'',
                                           ''rec_'' @ stamp @ ''.h264''])
            \<and> record_test_output senv cenv stamp =
              Inr (Path (root mp) (parts mp @ [''slitlamp-recordings'',
                                                ''test_'' @ stamp @ ''.h264''])))"
proof -
  from assms obtain target cmd where c: "choose_usb_target senv = Some target"
    and k: "camera_sanity_check cenv = Inr cmd"
    and d: "dir = joinpath (mountpoint target) RECORDINGS_SUBDIR"
    by (auto simp: record_service_output_dir_def split: option.splits sum.splits)
  from target_under_dir [OF choose_in_find [OF c]] obtain mp
    where m: "mountpoint target = Path (root mp) (parts mp @ [''slitlamp-recordings''])"
    by (auto simp: join_recordings_dir)
  have dir: "dir = Path (root mp) (parts mp @ [''slitlamp-recordings'', ''slitlamp_recordings''])"
    by (simp add: d m join_recordings_subdir)
  have files: "joinpath dir (''rec_'' @ stamp @ ''.h264'') =
              Path (root mp) (parts mp @ [''slitlamp-recordings'', ''slitlamp_recordings'',
                                           ''rec_'' @ stamp @ ''.h264''])
            \<and> record_test_output senv cenv stamp =
              Inr (Path (root mp) (parts mp @ [''slitlamp-recordings'',
                                                ''test_'' @ stamp @ ''.h264'']))"
    if "CHR ''/'' \<notin> set stamp" for stamp
  proof -
    have "joinpath dir (''rec_'' @ stamp @ ''.h264'') =
            Path (root dir) (parts dir @ [''rec_'' @ stamp @ ''.h264''])"
      by (rule join_plain_name) (use that in auto)
    moreover have "joinpath (mountpoint target) (''test_'' @ stamp @ ''.h264'') =
            Path (root (mountpoint target)) (parts (mountpoint target) @ [''test_'' @ stamp @ ''.h264''])"
      by (rule join_plain_name) (use that in auto)
    ultimately show ?thesis
      by (simp add: dir m record_test_output_def c k)
  qed
  from c m dir files show ?thesis by blast
qed

lemma one_stick_dir:
  "record_service_output_dir one_stick_env pi_camera =
     Inr (Path ''/'' [''media'', ''usb'', ''slitlamp-recordings'', ''slitlamp_recordings''])"
  by code_simp

lemma press_release_calls:
  "(case feed [(0, Pressed, a_tick True None), (3000, Released, a_tick False None)]
          (fresh_service, fresh_world) of
      Ok u sw \<Rightarrow> map snd (calls (snd sw))
    | _ \<Rightarrow> []) =
   [Mkdir (Path ''/'' [''media'', ''usb'', ''slitlamp-recordings'', ''slitlamp_recordings'']),
    Popen [''rpicam-vid'', ''-t'', ''0'', ''--codec'', ''h264'', ''--framerate'', ''25'',
           ''--inline'', ''--nopreview'', ''-o'',
           ''/media/usb/slitlamp-recordings/slitlamp_recordings/rec_20260101_120000.h264''],
    SendSignal 0 SIGINT, Wait 0 (Some 5000),
    RunCmd [''ffmpeg'', ''-y'', ''-fflags'', ''+genpts'', ''-r'', ''25'', ''-i'',
            ''/media/usb/slitlamp-recordings/slitlamp_recordings/rec_20260101_120000.h264'',
            ''-c'', ''copy'',
            ''/media/usb/slitlamp-recordings/slitlamp_recordings/rec_20260101_120000.mp4''],
    RunCmd [''sync'']]"
  by code_simp

theorem record_service_nests_two_directories_witness:
  "record_service_output_dir one_stick_env pi_camera =
     Inr (Path ''/'' [''media'', ''usb'', ''slitlamp-recordings'', ''slitlamp_recordings''])
   \<and> (\<exists>target mp. choose_usb_target one_stick_env = Some target
      \<and> mountpoint target = Path (root mp) (parts mp @ [''slitlamp-recordings''])
      \<and> Path ''/'' [''media'', ''usb'', ''slitlamp-recordings'', ''slitlamp_recordings''] =
          Path (root mp) (parts mp @ [''slitlamp-recordings'', ''slitlamp_recordings'']))"
  using record_service_nests_two_directories [OF one_stick_dir] one_stick_dir
  by blast

end
